theory Spec2Isabelle
  imports Complex_Main "HOL-Library.Sublist"
begin

section \<open>JavaScript values used by the embedding\<close>

text \<open>
  \<open>Array.prototype.slice(0, end)\<close>: a negative \<open>end\<close> counts from the end of the
  array, and the result is clamped to the array.
\<close>

definition js_slice0 :: "'a list \<Rightarrow> int \<Rightarrow> 'a list" where
  "js_slice0 xs e =
     (let n = int (length xs);
          k = (if e < 0 then max (n + e) 0 else min e n)
      in take (nat k) xs)"

section \<open>History store: \<open>safeSaveToLocalStorage\<close>\<close>

text \<open>
  The value handed to \<open>safeSaveToLocalStorage\<close> has type \<open>any\<close>; the code only
  distinguishes arrays (\<open>Array.isArray\<close>) from everything else. The stored text is
  \<open>JSON.stringify(data)\<close>; it is kept symbolic, so the store maps a key to the data
  that was serialised under it.
\<close>

datatype 'a data = Array "'a list" | Other 'a

text \<open>An exception object as the catch block inspects it: \<open>e.name\<close> and \<open>e.code\<close>.\<close>

record js_error =
  err_name :: string
  err_code :: "int option"

text \<open>
  The browser's local storage: the key-value content, and the sequence of calls made
  on it (every \<open>setItem\<close> call is recorded, also one that throws).
\<close>

datatype 'a storage_call = SetItem string "'a data" | RemoveItem string

record 'a storage =
  items :: "string \<rightharpoonup> 'a data"
  calls :: "'a storage_call list"

text \<open>
  The environment: whether \<open>window.localStorage\<close> exists, and what
  \<open>localStorage.setItem(key, JSON.stringify(data))\<close> throws, if anything, for a given
  content of the store (a quota error, or any other exception of the two calls).
\<close>

record 'a env =
  has_localStorage :: bool
  setItem_throws :: "(string \<rightharpoonup> 'a data) \<Rightarrow> string \<Rightarrow> 'a data \<Rightarrow> js_error option"

definition setItem ::
  "'a env \<Rightarrow> string \<Rightarrow> 'a data \<Rightarrow> 'a storage \<Rightarrow> (js_error + unit) \<times> 'a storage" where
  "setItem env key d st =
     (let st1 = st\<lparr>calls := calls st @ [SetItem key d]\<rparr>
      in case setItem_throws env (items st) key d of
           Some e \<Rightarrow> (Inl e, st1)
         | None \<Rightarrow> (Inr (), st1\<lparr>items := (items st1)(key \<mapsto> d)\<rparr>))"

definition removeItem :: "string \<Rightarrow> 'a storage \<Rightarrow> (js_error + unit) \<times> 'a storage" where
  "removeItem key st =
     (Inr (), st\<lparr>items := (items st)(key := None), calls := calls st @ [RemoveItem key]\<rparr>)"

text \<open>
  \<open>safeSaveToLocalStorage\<close> of \<open>components/UtilitiesTab.tsx\<close>: on a quota error
  the last two entries are dropped and the write is retried; an emptied list removes
  the key.
\<close>

function safeSaveToLocalStorage ::
  "'a env \<Rightarrow> string \<Rightarrow> 'a data \<Rightarrow> 'a storage \<Rightarrow> (js_error + unit) \<times> 'a storage" where
  "safeSaveToLocalStorage env key d st =
     (if \<not> has_localStorage env then (Inr (), st)
      else case setItem env key d st of
             (Inr u, st1) \<Rightarrow> (Inr (), st1)
           | (Inl e, st1) \<Rightarrow>
               if err_name e = ''QuotaExceededError'' \<or> err_code e = Some 22 \<or> err_code e = Some 1014
               then (case d of
                       Array xs \<Rightarrow>
                         let pruned = js_slice0 xs (max 0 (int (length xs) - 2))
                         in if length pruned > 0
                            then safeSaveToLocalStorage env key (Array pruned) st1
                            else removeItem key st1
                     | Other v \<Rightarrow> (Inr (), st1))
               else (Inr (), st1))"
  by pat_completeness auto

definition data_size :: "'a data \<Rightarrow> nat" where
  "data_size d = (case d of Array xs \<Rightarrow> length xs | Other v \<Rightarrow> 0)"

termination safeSaveToLocalStorage
proof (relation "measure (\<lambda>(env, key, d, st). data_size d)", goal_cases)
  case 1
  show ?case by simp
next
  case (2 env key d st x1 x2 e xs pruned)
  have "pruned = take (length xs - 2) xs"
    using 2(6) by (auto simp: js_slice0_def Let_def max_def min_def nat_diff_distrib')
  with 2(7) have "length pruned < length xs" by simp
  with 2(5) show ?case by (simp add: data_size_def)
qed

text \<open>
  \<open>safeSaveToLocalStorage\<close> of the application shell (the render and edit
  histories): on a quota error the last three entries are dropped and the write is
  retried; there is no branch for an emptied list.
\<close>

function safeSaveToLocalStorage_App ::
  "'a env \<Rightarrow> string \<Rightarrow> 'a data \<Rightarrow> 'a storage \<Rightarrow> (js_error + unit) \<times> 'a storage" where
  "safeSaveToLocalStorage_App env key d st =
     (if \<not> has_localStorage env then (Inr (), st)
      else case setItem env key d st of
             (Inr u, st1) \<Rightarrow> (Inr (), st1)
           | (Inl e, st1) \<Rightarrow>
               if err_name e = ''QuotaExceededError'' \<or> err_code e = Some 22 \<or> err_code e = Some 1014
               then (case d of
                       Array xs \<Rightarrow>
                         let pruned = js_slice0 xs (max 0 (int (length xs) - 3))
                         in if length pruned > 0
                            then safeSaveToLocalStorage_App env key (Array pruned) st1
                            else (Inr (), st1)
                     | Other v \<Rightarrow> (Inr (), st1))
               else (Inr (), st1))"
  by pat_completeness auto

termination safeSaveToLocalStorage_App
proof (relation "measure (\<lambda>(env, key, d, st). data_size d)", goal_cases)
  case 1
  show ?case by simp
next
  case (2 env key d st x1 x2 e xs pruned)
  have "pruned = take (length xs - 3) xs"
    using 2(6) by (auto simp: js_slice0_def Let_def max_def min_def nat_diff_distrib')
  with 2(7) have "length pruned < length xs" by simp
  with 2(5) show ?case by (simp add: data_size_def)
qed

text \<open>The test of the catch block: is the exception a quota error?\<close>

definition quota_error :: "js_error \<Rightarrow> bool" where
  "quota_error e = (err_name e = ''QuotaExceededError'' \<or> err_code e = Some 22 \<or> err_code e = Some 1014)"

text \<open>
  Observations on the recorded calls: the calls a run added, the lists it tried to
  write under a key, and whether writing a list fails with a quota error.
\<close>

definition new_calls :: "'a storage \<Rightarrow> 'a storage \<Rightarrow> 'a storage_call list" where
  "new_calls st st' = drop (length (calls st)) (calls st')"

fun writes :: "string \<Rightarrow> 'a storage_call list \<Rightarrow> 'a list list" where
  "writes key [] = []"
| "writes key (SetItem k (Array xs) # cs) = (if k = key then xs # writes key cs else writes key cs)"
| "writes key (SetItem k (Other v) # cs) = writes key cs"
| "writes key (RemoveItem k # cs) = writes key cs"

definition quota_fails :: "'a env \<Rightarrow> 'a storage \<Rightarrow> string \<Rightarrow> 'a list \<Rightarrow> bool" where
  "quota_fails env st key ys =
     (case setItem_throws env (items st) key (Array ys) of None \<Rightarrow> False | Some e \<Rightarrow> quota_error e)"

text \<open>
  A sequence of attempted writes is a retry chain when every write but the last failed
  with a quota error and is followed by a non-empty strict prefix of itself, and the
  last one either did not fail with a quota error or has at most \<open>d\<close> entries (nothing
  is left after dropping \<open>d\<close>).
\<close>

fun retry_chain :: "('a list \<Rightarrow> bool) \<Rightarrow> nat \<Rightarrow> 'a list list \<Rightarrow> bool" where
  "retry_chain qf d [] = False"
| "retry_chain qf d [ys] = (\<not> qf ys \<or> length ys \<le> d)"
| "retry_chain qf d (ys # zs # r) = (qf ys \<and> strict_prefix zs ys \<and> zs \<noteq> [] \<and> retry_chain qf d (zs # r))"

fun drops_at_least :: "nat \<Rightarrow> 'a list list \<Rightarrow> bool" where
  "drops_at_least d (ys # zs # r) = (length zs + d \<le> length ys \<and> drops_at_least d (zs # r))"
| "drops_at_least d r = True"

text \<open>
  A store that throws a quota error exactly for lists of more than \<open>n\<close> entries, and
  the empty store.
\<close>

definition quota_env :: "nat \<Rightarrow> 'a env" where
  "quota_env n =
     \<lparr>has_localStorage = True,
      setItem_throws = (\<lambda>its k d. if n < data_size d
                         then Some \<lparr>err_name = ''QuotaExceededError'', err_code = Some 22\<rparr>
                         else None)\<rparr>"

definition empty_storage :: "'a storage" where
  "empty_storage = \<lparr>items = Map.empty, calls = []\<rparr>"

section \<open>Generation orchestrator: \<open>services/geminiService.ts\<close>\<close>

text \<open>
  Strings are lists of bytes; a text outside ASCII stands for its UTF-8 encoding. A
  string is truthy when it is not empty; \<open>null\<close> and \<open>undefined\<close> are \<open>None\<close>.
\<close>

record SourceImage =
  base64 :: string
  mimeType :: string

text \<open>
  The ambient state \<open>getApiKey\<close> reads: whether \<open>window\<close> is defined, what
  \<open>localStorage.getItem\<close> returns for a key, and \<open>process.env.API_KEY\<close>.
\<close>

record key_env =
  window_defined :: bool
  getItem :: "string \<Rightarrow> string option"
  env_API_KEY :: "string option"

definition getApiKey :: "key_env \<Rightarrow> string option" where
  "getApiKey ke =
     (let from_env = (case env_API_KEY ke of
                        Some k \<Rightarrow> if k \<noteq> [] then Some k else None
                      | None \<Rightarrow> None)
      in if window_defined ke
         then (case getItem ke ''gemini_api_key'' of
                 Some storedKey \<Rightarrow> if storedKey \<noteq> [] then Some storedKey else from_env
               | None \<Rightarrow> from_env)
         else from_env)"

text \<open>
  The other copy of the service has a \<open>getApiKey\<close> that returns a string literal
  written in the code ("Hardcoded key as per user request"). The literal is a
  parameter here: a fixed, non-empty string whose text is not repeated.
\<close>

definition getApiKey_hardcoded :: "string \<Rightarrow> key_env \<Rightarrow> string option" where
  "getApiKey_hardcoded literal ke = Some literal"

text \<open>
  Errors: the sentinel of \<open>getGenAI\<close>, a rejected \<open>generateContent\<close> promise (its
  reason is not inspected by the code modelled here), and the two errors the callers
  throw themselves on an empty result.
\<close>

datatype error =
    API_KEY_MISSING
  | Rejected
  | AI_cannot_create_new_image
  | API_did_not_return_an_image

definition getGenAI :: "string option \<Rightarrow> error + string" where
  "getGenAI apiKey =
     (case apiKey of
        None \<Rightarrow> Inl API_KEY_MISSING
      | Some k \<Rightarrow> if k = [] then Inl API_KEY_MISSING else Inr k)"

text \<open>The response of the model API, as far as \<open>extractBase64Image\<close> reads it.\<close>

record inline_data =
  inline_mimeType :: string
  inline_bytes :: string

record part =
  inlineData :: "inline_data option"
  text_of :: "string option"

record content_t =
  parts :: "part list option"

record candidate =
  content :: "content_t option"

record response =
  candidates :: "candidate list option"

fun first_inline :: "part list \<Rightarrow> string option" where
  "first_inline [] = None"
| "first_inline (p # ps) =
     (case inlineData p of
        Some d \<Rightarrow> Some (''data:'' @ inline_mimeType d @ '';base64,'' @ inline_bytes d)
      | None \<Rightarrow> first_inline ps)"

definition extractBase64Image :: "response \<Rightarrow> string option" where
  "extractBase64Image r =
     (case candidates r of
        None \<Rightarrow> None
      | Some [] \<Rightarrow> None
      | Some (c # cs) \<Rightarrow>
          (case content c of
             None \<Rightarrow> None
           | Some ct \<Rightarrow> (case parts ct of None \<Rightarrow> None | Some ps \<Rightarrow> first_inline ps)))"

text \<open>A request to \<open>models.generateContent\<close>.\<close>

datatype request_part = InlineData SourceImage | Text string

datatype modality = IMAGE | TEXT

record image_config =
  cfg_aspectRatio :: "string option"
  cfg_imageSize :: "string option"

record request =
  model :: string
  contents :: "request_part list"
  responseModalities :: "modality list"
  imageConfig :: "image_config option"

text \<open>
  The external model: the outcome of the \<open>i\<close>-th request issued by a call, either a
  rejection or a response.
\<close>

type_synonym model_api = "nat \<Rightarrow> request \<Rightarrow> error + response"

text \<open>\<open>Promise.all\<close>: rejected as soon as one promise is, else the results in order.\<close>

fun promise_all :: "(error + 'a) list \<Rightarrow> error + 'a list" where
  "promise_all [] = Inr []"
| "promise_all (Inl e # rs) = Inl e"
| "promise_all (Inr x # rs) = (case promise_all rs of Inl e \<Rightarrow> Inl e | Inr xs \<Rightarrow> Inr (x # xs))"

datatype renderType = Exterior | Interior | Floorplan

definition generation_request ::
  "SourceImage \<Rightarrow> string \<Rightarrow> SourceImage option \<Rightarrow> string \<Rightarrow> bool \<Rightarrow> request" where
  "generation_request sourceImage prompt referenceImage aspectRatio isHighQuality =
     \<lparr>model = (if isHighQuality then ''gemini-3-pro-image-preview'' else ''gemini-2.5-flash-image''),
      contents = [InlineData sourceImage]
                 @ (case referenceImage of Some r \<Rightarrow> [InlineData r] | None \<Rightarrow> [])
                 @ [Text prompt],
      responseModalities = [IMAGE, TEXT],
      imageConfig = Some
        \<lparr>cfg_aspectRatio = (if aspectRatio \<noteq> [] \<and> aspectRatio \<noteq> ''original''
                             then Some aspectRatio else None),
         cfg_imageSize = (if isHighQuality then Some ''4K'' else None)\<rparr>\<rparr>"

text \<open>
  \<open>generateImages\<close>: the requests issued, in order, and the awaited result. The
  parameters \<open>renderType\<close>, \<open>isAnglePrompt\<close> and \<open>useRawPrompt\<close> are not used by
  the body.
\<close>

definition generateImages ::
  "string option \<Rightarrow> model_api \<Rightarrow> SourceImage \<Rightarrow> string \<Rightarrow> renderType \<Rightarrow> nat \<Rightarrow>
   SourceImage option \<Rightarrow> bool \<Rightarrow> bool \<Rightarrow> string \<Rightarrow> bool \<Rightarrow> request list \<times> (error + string list)" where
  "generateImages apiKey api sourceImage prompt rt count referenceImage isAnglePrompt useRawPrompt
       aspectRatio isHighQuality =
     (case getGenAI apiKey of
        Inl e \<Rightarrow> ([], Inl e)
      | Inr currentAi \<Rightarrow>
          let req = generation_request sourceImage prompt referenceImage aspectRatio isHighQuality;
              generationPromises =
                map (\<lambda>i. case api i req of
                            Inl e \<Rightarrow> Inl e
                          | Inr resp \<Rightarrow> Inr (extractBase64Image resp)) [0..<count]
          in (replicate count req,
              case promise_all generationPromises of
                Inl e \<Rightarrow> Inl e
              | Inr results \<Rightarrow> Inr (map the (filter (\<lambda>result. result \<noteq> None) results))))"

definition edit_request :: "SourceImage \<Rightarrow> SourceImage \<Rightarrow> string \<Rightarrow> SourceImage option \<Rightarrow> request" where
  "edit_request sourceImage maskImage prompt referenceImage =
     \<lparr>model = ''gemini-2.5-flash-image'',
      contents = [InlineData sourceImage, InlineData maskImage]
                 @ (case referenceImage of Some r \<Rightarrow> [InlineData r] | None \<Rightarrow> [])
                 @ [Text (case referenceImage of
                            Some r \<Rightarrow> ''SYSTEM: EXACT MATERIAL REPLACEMENT. Use material from Image 3 to replace mask area in Image 1. Target description: '' @ prompt
                          | None \<Rightarrow> ''Edit masked area: '' @ prompt)],
      responseModalities = [IMAGE, TEXT],
      imageConfig = None\<rparr>"

definition editImage ::
  "string option \<Rightarrow> model_api \<Rightarrow> SourceImage \<Rightarrow> SourceImage \<Rightarrow> string \<Rightarrow> SourceImage option \<Rightarrow> nat \<Rightarrow>
   request list \<times> (error + string list)" where
  "editImage apiKey api sourceImage maskImage prompt referenceImage count =
     (case getGenAI apiKey of
        Inl e \<Rightarrow> ([], Inl e)
      | Inr ai \<Rightarrow>
          let req = edit_request sourceImage maskImage prompt referenceImage;
              generationPromises =
                map (\<lambda>i. case api i req of
                            Inl e \<Rightarrow> Inl e
                          | Inr resp \<Rightarrow> Inr (extractBase64Image resp)) [0..<count]
          in (replicate count req,
              case promise_all generationPromises of
                Inl e \<Rightarrow> Inl e
              | Inr results \<Rightarrow> Inr (map the (filter (\<lambda>result. result \<noteq> None) results))))"

section \<open>Virtual tour: \<open>components/VirtualTourTab.tsx\<close>\<close>

text \<open>
  The regular expression \<open>/^data:(image\/[a-z]+);base64,(.+)$/\<close>: after
  \<open>data:image/\<close> a non-empty run of lower-case letters, then \<open>;base64,\<close>, then a
  non-empty rest without line terminators (LF, CR, U+2028, U+2029).
\<close>

definition is_lower_ascii :: "char \<Rightarrow> bool" where
  "is_lower_ascii c = (97 \<le> (of_char c :: nat) \<and> (of_char c :: nat) \<le> 122)"

fun has_line_terminator :: "string \<Rightarrow> bool" where
  "has_line_terminator [] = False"
| "has_line_terminator (c # cs) =
     (c = CHR 0x0A \<or> c = CHR 0x0D
      \<or> (c = CHR 0xE2 \<and> (take 2 cs = [CHR 0x80, CHR 0xA8] \<or> take 2 cs = [CHR 0x80, CHR 0xA9]))
      \<or> has_line_terminator cs)"

definition dataUrlToSourceImage :: "string \<Rightarrow> SourceImage option" where
  "dataUrlToSourceImage dataUrl =
     (if take 11 dataUrl = ''data:image/''
      then (let subtype = takeWhile is_lower_ascii (drop 11 dataUrl);
                after = dropWhile is_lower_ascii (drop 11 dataUrl)
            in if subtype \<noteq> [] \<and> take 8 after = '';base64,''
                  \<and> drop 8 after \<noteq> [] \<and> \<not> has_line_terminator (drop 8 after)
               then Some \<lparr>base64 = drop 8 after, mimeType = ''image/'' @ subtype\<rparr>
               else None)
      else None)"

datatype degree = Deg15 | Deg30 | Deg45

fun degree_text :: "degree \<Rightarrow> string" where
  "degree_text Deg15 = ''15''"
| "degree_text Deg30 = ''30''"
| "degree_text Deg45 = ''45''"

text \<open>The \<open>switch\<close> of \<open>handleAction\<close>; \<open>None\<close> is the \<open>default: return\<close>.\<close>

definition action_prompt :: "degree \<Rightarrow> string \<Rightarrow> string option" where
  "action_prompt movementDegree action =
     (if action = ''pan-up'' then Some (''pan camera up by '' @ degree_text movementDegree @ '' degrees'')
      else if action = ''pan-down'' then Some (''pan camera down by '' @ degree_text movementDegree @ '' degrees'')
      else if action = ''pan-left'' then Some (''pan camera left by '' @ degree_text movementDegree @ '' degrees'')
      else if action = ''pan-right'' then Some (''pan camera right by '' @ degree_text movementDegree @ '' degrees'')
      else if action = ''orbit-left'' then Some (''orbit camera left by '' @ degree_text movementDegree @ '' degrees'')
      else if action = ''orbit-right'' then Some (''orbit camera right by '' @ degree_text movementDegree @ '' degrees'')
      else if action = ''zoom-in'' then Some ''zoom in slightly''
      else if action = ''zoom-out'' then Some ''zoom out slightly''
      else None)"

text \<open>
  What the user is shown and what is logged. The alert texts are Vietnamese; each
  constructor stands for one of them: "please upload an image to start", "invalid
  image format", "an error occurred while navigating the image, please try again"
  (virtual tour); "please upload an image and enter a description", "cannot create the
  mask", "an error occurred while editing the image, please try again" (image editor).
\<close>

datatype alert =
    Alert_upload_image_first
  | Alert_invalid_image_format
  | Alert_navigation_failed
  | Alert_need_image_and_prompt
  | Alert_cannot_create_mask
  | Alert_editing_failed

datatype effect = Alert alert | Console_error error

record tour_state =
  tour_sourceImage :: "SourceImage option"
  history :: "string list"
  historyIndex :: int
  isLoading :: bool
  movementDegree :: degree

definition tour_init :: tour_state where
  "tour_init = \<lparr>tour_sourceImage = None, history = [], historyIndex = - 1, isLoading = False,
                 movementDegree = Deg30\<rparr>"

definition currentImage :: "tour_state \<Rightarrow> string option" where
  "currentImage t =
     (if historyIndex t \<ge> 0 \<and> historyIndex t < int (length (history t))
      then Some (history t ! nat (historyIndex t))
      else None)"

definition handleImageUpload :: "SourceImage \<Rightarrow> tour_state \<Rightarrow> tour_state" where
  "handleImageUpload img t =
     (let imageUrl = ''data:'' @ mimeType img @ '';base64,'' @ base64 img
      in t\<lparr>tour_sourceImage := Some img, history := [imageUrl], historyIndex := 0\<rparr>)"

text \<open>
  \<open>handleAction\<close>: the state after the handler has run to its end, and the alerts
  and log entries it produced. The handler works on the \<open>history\<close> and
  \<open>historyIndex\<close> of the render it was created in; every control is disabled while
  \<open>isLoading\<close>, so these are still the current ones when the request returns.
\<close>

definition handleAction :: "string option \<Rightarrow> model_api \<Rightarrow> string \<Rightarrow> tour_state \<Rightarrow> tour_state \<times> effect list" where
  "handleAction apiKey api action t =
     (case currentImage t of
        None \<Rightarrow> (t, [Alert Alert_upload_image_first])
      | Some cur \<Rightarrow>
          if cur = [] then (t, [Alert Alert_upload_image_first])
          else (case dataUrlToSourceImage cur of
             None \<Rightarrow> (t, [Alert Alert_invalid_image_format])
           | Some imageForGeneration \<Rightarrow>
               (case action_prompt (movementDegree t) action of
                  None \<Rightarrow> (t, [])
                | Some prompt \<Rightarrow>
                    (case snd (generateImages apiKey api imageForGeneration prompt Interior 1 None True
                                 False ''1:1'' False) of
                       Inl e \<Rightarrow> (t\<lparr>isLoading := False\<rparr>, [Console_error e, Alert Alert_navigation_failed])
                     | Inr [] \<Rightarrow>
                         (t\<lparr>isLoading := False\<rparr>,
                          [Console_error AI_cannot_create_new_image, Alert Alert_navigation_failed])
                     | Inr (image0 # others) \<Rightarrow>
                         if image0 \<noteq> []
                         then (let newHistory = js_slice0 (history t) (historyIndex t + 1) @ [image0]
                               in (t\<lparr>history := newHistory,
                                     historyIndex := int (length newHistory) - 1,
                                     isLoading := False\<rparr>, []))
                         else (t\<lparr>isLoading := False\<rparr>,
                               [Console_error AI_cannot_create_new_image, Alert Alert_navigation_failed])))))"

definition handleUndo :: "tour_state \<Rightarrow> tour_state" where
  "handleUndo t = (if historyIndex t > 0 then t\<lparr>historyIndex := historyIndex t - 1\<rparr> else t)"

definition handleRedo :: "tour_state \<Rightarrow> tour_state" where
  "handleRedo t =
     (if historyIndex t < int (length (history t)) - 1
      then t\<lparr>historyIndex := historyIndex t + 1\<rparr> else t)"

text \<open>The events of the component and the state they lead to.\<close>

datatype tour_event =
    Upload SourceImage
  | Action string "string option" model_api
  | Undo
  | Redo
  | SetMovementDegree degree

fun tour_step :: "tour_state \<Rightarrow> tour_event \<Rightarrow> tour_state" where
  "tour_step t (Upload img) = handleImageUpload img t"
| "tour_step t (Action action apiKey api) = fst (handleAction apiKey api action t)"
| "tour_step t Undo = handleUndo t"
| "tour_step t Redo = handleRedo t"
| "tour_step t (SetMovementDegree d) = t\<lparr>movementDegree := d\<rparr>"

definition tour_run :: "tour_event list \<Rightarrow> tour_state" where
  "tour_run events = foldl tour_step tour_init events"

text \<open>
  The image the viewer shows (\<open>currentImage ? <img> : placeholder\<close>), and the
  invariant of the history and its position.
\<close>

definition displayed :: "tour_state \<Rightarrow> string option" where
  "displayed t = (case currentImage t of None \<Rightarrow> None | Some cur \<Rightarrow> if cur \<noteq> [] then Some cur else None)"

definition tour_inv :: "tour_state \<Rightarrow> bool" where
  "tour_inv t =
     (- 1 \<le> historyIndex t \<and> historyIndex t \<le> int (length (history t)) - 1
      \<and> (historyIndex t = - 1 \<longleftrightarrow> history t = [])
      \<and> (history t \<noteq> [] \<longrightarrow> displayed t = Some (history t ! nat (historyIndex t))))"

text \<open>Responses used in examples: one with an inline image, one with text only.\<close>

definition image_response :: "string \<Rightarrow> response" where
  "image_response b =
     \<lparr>candidates = Some [\<lparr>content = Some \<lparr>parts = Some
        [\<lparr>inlineData = None, text_of = Some ''view''\<rparr>,
         \<lparr>inlineData = Some \<lparr>inline_mimeType = ''image/png'', inline_bytes = b\<rparr>, text_of = None\<rparr>]\<rparr>\<rparr>]\<rparr>"

definition text_response :: response where
  "text_response =
     \<lparr>candidates = Some [\<lparr>content = Some \<lparr>parts = Some
        [\<lparr>inlineData = None, text_of = Some ''no image''\<rparr>]\<rparr>\<rparr>]\<rparr>"

text \<open>Fixtures for the examples: model APIs, a tour state, key environments.\<close>

definition always_image_api :: "string \<Rightarrow> model_api" where
  "always_image_api b = (\<lambda>i r. Inr (image_response b))"

definition text_only_api :: model_api where
  "text_only_api = (\<lambda>i r. Inr text_response)"

definition list_api :: "response list \<Rightarrow> model_api" where
  "list_api rs = (\<lambda>i r. if i < length rs then Inr (rs ! i) else Inl Rejected)"

text \<open>The same API with the \<open>j\<close>-th request rejected, and four responses for it.\<close>

definition rejecting_api :: "nat \<Rightarrow> response list \<Rightarrow> model_api" where
  "rejecting_api j rs = (\<lambda>i r. if i = j then Inl Rejected else list_api rs i r)"

definition example_responses :: "response list" where
  "example_responses =
     [image_response ''AAAA'', image_response ''BBBB'', image_response ''CCCC'', image_response ''DDDD'']"

definition tour_example :: tour_state where
  "tour_example =
     \<lparr>tour_sourceImage = Some \<lparr>base64 = ''AAAA'', mimeType = ''image/png''\<rparr>,
      history = [''data:image/png;base64,AAAA'', ''data:image/png;base64,BBBB'',
                 ''data:image/png;base64,CCCC''],
      historyIndex = 0, isLoading = False, movementDegree = Deg30\<rparr>"

definition tour_example_events :: "tour_event list" where
  "tour_example_events =
     [Upload \<lparr>base64 = ''AAAA'', mimeType = ''image/png''\<rparr>,
      Action ''zoom-in'' (Some ''k'') (always_image_api ''NNNN''),
      Undo, Redo, Undo]"

definition stored_key_env :: "string \<Rightarrow> string \<Rightarrow> key_env" where
  "stored_key_env stored from_env =
     \<lparr>window_defined = True,
      getItem = (\<lambda>k. if k = ''gemini_api_key'' then Some stored else None),
      env_API_KEY = Some from_env\<rparr>"

text \<open>The invariant of the tour used in the proofs: no entry of the history is empty.\<close>

definition tour_wf :: "tour_state \<Rightarrow> bool" where
  "tour_wf t = (tour_inv t \<and> [] \<notin> set (history t))"

section \<open>Image editor: \<open>handleGenerate\<close>\<close>

text \<open>Every JavaScript object is truthy, an empty array too.\<close>

definition js_truthy_array :: "'a list \<Rightarrow> bool" where
  "js_truthy_array xs = True"

datatype editor_effect =
    Editor_alert alert
  | SetIsLoading bool
  | SetResultImage "string list option"
  | OnEditComplete SourceImage SourceImage string "string list"
  | Editor_console_error error

text \<open>
  \<open>handleGenerate\<close> of the image editor: what it does, in order, given the image and
  prompt of the editor and the result of \<open>generateMaskImage()\<close>. \<open>editImage\<close> is
  called with three arguments, so without reference image and with the default count
  of 4; its result is an array of strings.
\<close>

definition handleGenerate ::
  "string option \<Rightarrow> model_api \<Rightarrow> SourceImage option \<Rightarrow> string \<Rightarrow> SourceImage option \<Rightarrow> editor_effect list" where
  "handleGenerate apiKey api img prompt generatedMask =
     (case img of
        None \<Rightarrow> [Editor_alert Alert_need_image_and_prompt]
      | Some im \<Rightarrow>
          if prompt = [] then [Editor_alert Alert_need_image_and_prompt]
          else (case generatedMask of
                  None \<Rightarrow> [Editor_alert Alert_cannot_create_mask]
                | Some maskImage \<Rightarrow>
                    [SetIsLoading True, SetResultImage None]
                    @ (case snd (editImage apiKey api im maskImage prompt None 4) of
                         Inl e \<Rightarrow> [Editor_console_error e, Editor_alert Alert_editing_failed]
                       | Inr result \<Rightarrow>
                           if js_truthy_array result
                           then [SetResultImage (Some result), OnEditComplete im maskImage prompt result]
                           else [Editor_console_error API_did_not_return_an_image,
                                 Editor_alert Alert_editing_failed])
                    @ [SetIsLoading False]))"

section \<open>Prompt assembler of the facade-from-land wizard\<close>

record MaterialOption =
  mo_id :: string
  mo_title :: string
  materials :: string
  designKeywords :: string
  gateDesign :: string
  mo_description :: string

record ColorPalette =
  cp_id :: string
  cp_name :: string
  cp_description :: string
  cp_components :: string

text \<open>\<open>s.split(sep)[0]\<close> for a non-empty separator: the text before its first occurrence.\<close>

fun split_first :: "string \<Rightarrow> string \<Rightarrow> string" where
  "split_first sep [] = []"
| "split_first sep (c # cs) = (if prefix sep (c # cs) then [] else c # split_first sep cs)"

text \<open>The Vietnamese fragments of the template, as UTF-8 bytes.\<close>

definition txt_facade :: string where
  \<comment> \<open>Mat tien (facade)\<close>
  "txt_facade =
     ''M'' @
     [CHR 0xE1, CHR 0xBA, CHR 0xB7] @
     ''t ti'' @
     [CHR 0xE1, CHR 0xBB, CHR 0x81] @
     ''n ''"

definition txt_floors :: string where
  \<comment> \<open>tang (floors)\<close>
  "txt_floors =
     '' t'' @ [CHR 0xE1, CHR 0xBA, CHR 0xA7] @ ''ng. ''"

definition txt_color :: string where
  \<comment> \<open>Tong mau (colour tone)\<close>
  "txt_color =
     ''T'' @ [CHR 0xC3, CHR 0xB4] @ ''ng m'' @ [CHR 0xC3, CHR 0xA0] @ ''u: ''"

definition txt_materials :: string where
  \<comment> \<open>Vat lieu (materials)\<close>
  "txt_materials =
     ''V'' @
     [CHR 0xE1, CHR 0xBA, CHR 0xAD] @
     ''t li'' @
     [CHR 0xE1, CHR 0xBB, CHR 0x87] @
     ''u: ''"

definition txt_design :: string where
  \<comment> \<open>Dac diem (features)\<close>
  "txt_design =
     [CHR 0xC4, CHR 0x90, CHR 0xE1, CHR 0xBA, CHR 0xB7] @
     ''c '' @
     [CHR 0xC4, CHR 0x91] @
     ''i'' @
     [CHR 0xE1, CHR 0xBB, CHR 0x83] @
     ''m: ''"

definition txt_gate :: string where
  \<comment> \<open>Cong nha (gate)\<close>
  "txt_gate =
     ''C'' @
     [CHR 0xE1, CHR 0xBB, CHR 0x95] @
     ''ng nh'' @
     [CHR 0xC3, CHR 0xA0] @
     '': ''"

definition txt_keep_surroundings :: string where
  \<comment> \<open>Giu nguyen canh quan xung quanh (keep the surrounding scenery unchanged)\<close>
  "txt_keep_surroundings =
     ''Gi'' @
     [CHR 0xE1, CHR 0xBB, CHR 0xAF] @
     '' nguy'' @
     [CHR 0xC3, CHR 0xAA] @
     ''n c'' @
     [CHR 0xE1, CHR 0xBA, CHR 0xA3] @
     ''nh quan xung quanh.''"

text \<open>
  The effect that assembles the prompt when a material is selected: \<open>Some p\<close> when
  it calls \<open>setPrompt(p)\<close>, \<open>None\<close> when it does nothing.
\<close>

definition facade_prompt_effect ::
  "MaterialOption option \<Rightarrow> SourceImage option \<Rightarrow> string \<Rightarrow> string \<Rightarrow> string \<Rightarrow>
   ColorPalette option \<Rightarrow> string option" where
  "facade_prompt_effect selectedMaterial sourceImage1 selectedHouseType selectedFacadeStyle floors
       selectedColorPalette =
     (case selectedMaterial of
        None \<Rightarrow> None
      | Some m \<Rightarrow>
          (case sourceImage1 of
             None \<Rightarrow> None
           | Some src \<Rightarrow>
               let colorText = (case selectedColorPalette of
                                  Some c \<Rightarrow> txt_color @ split_first '' ('' (cp_name c) @ ''. ''
                                | None \<Rightarrow> []);
                   materialText = txt_materials @ materials m @ ''. '';
                   designText = (if designKeywords m \<noteq> []
                                 then txt_design @ designKeywords m @ ''. '' else []);
                   gateText = (if gateDesign m \<noteq> []
                               then txt_gate @ gateDesign m @ ''. '' else []);
                   fixedPrompt = txt_facade @ selectedHouseType @ '' '' @ selectedFacadeStyle @ '', ''
                                 @ floors @ txt_floors @ colorText @ materialText @ designText
                                 @ gateText @ txt_keep_surroundings
               in Some fixedPrompt))"

text \<open>The clauses the specification names, each empty when absent.\<close>

definition house_clause :: "string \<Rightarrow> string \<Rightarrow> string \<Rightarrow> string" where
  "house_clause houseType style floors = txt_facade @ houseType @ '' '' @ style @ '', '' @ floors @ txt_floors"

definition color_clause :: "ColorPalette option \<Rightarrow> string" where
  "color_clause palette =
     (case palette of None \<Rightarrow> [] | Some c \<Rightarrow> txt_color @ split_first '' ('' (cp_name c) @ ''. '')"

definition materials_clause :: "MaterialOption \<Rightarrow> string" where
  "materials_clause m = txt_materials @ materials m @ ''. ''"

definition design_clause :: "MaterialOption \<Rightarrow> string" where
  "design_clause m = (if designKeywords m = [] then [] else txt_design @ designKeywords m @ ''. '')"

definition gate_clause :: "MaterialOption \<Rightarrow> string" where
  "gate_clause m = (if gateDesign m = [] then [] else txt_gate @ gateDesign m @ ''. '')"

definition premium_example :: MaterialOption where
  "premium_example =
     \<lparr>mo_id = ''premium'', mo_title = ''Cao cap'', materials = ''stone, teak, low-e glass'',
      designKeywords = ''organic facade'', gateDesign = ''arched wooden gate'',
      mo_description = ''luxury''\<rparr>"

definition palette_example :: ColorPalette where
  "palette_example =
     \<lparr>cp_id = ''white_grey'', cp_name = ''White and Grey (recommended)'', cp_description = ''modern'',
      cp_components = ''white - grey - black''\<rparr>"

section \<open>Mask compositor: \<open>generateMaskImage\<close>\<close>

text \<open>
  A pixel: colour channels and alpha as fractions between 0 and 1 (the stored byte
  divided by 255), colour not premultiplied. A canvas bitmap: its size and its pixels;
  outside the bitmap a source is transparent black.
\<close>

record rgba =
  red :: rat
  green :: rat
  blue :: rat
  alpha :: rat

definition transparent :: rgba where
  "transparent = \<lparr>red = 0, green = 0, blue = 0, alpha = 0\<rparr>"

definition black :: rgba where
  "black = \<lparr>red = 0, green = 0, blue = 0, alpha = 1\<rparr>"

definition white :: rgba where
  "white = \<lparr>red = 1, green = 1, blue = 1, alpha = 1\<rparr>"

text \<open>The stroke style of the brush, \<open>rgba(236, 72, 153, 0.7)\<close>.\<close>

definition stroke_pink :: rgba where
  "stroke_pink = \<lparr>red = 236 / 255, green = 72 / 255, blue = 153 / 255, alpha = 7 / 10\<rparr>"

record canvas =
  width :: nat
  height :: nat
  pixel :: "nat \<Rightarrow> nat \<Rightarrow> rgba"

datatype composite_op = Source_over | Source_in

text \<open>
  Porter-Duff compositing of a source pixel onto a backdrop pixel:
  \<open>source-over\<close> has alpha \<open>as + ab (1 - as)\<close> and premultiplied colour
  \<open>as cs + (1 - as) ab cb\<close>; \<open>source-in\<close> has alpha \<open>as ab\<close> and the colour of the
  source.
\<close>

definition composite :: "composite_op \<Rightarrow> rgba \<Rightarrow> rgba \<Rightarrow> rgba" where
  "composite op s b =
     (case op of
        Source_over \<Rightarrow>
          (let ao = alpha s + alpha b * (1 - alpha s)
           in if ao = 0 then transparent
              else \<lparr>red = (alpha s * red s + (1 - alpha s) * alpha b * red b) / ao,
                    green = (alpha s * green s + (1 - alpha s) * alpha b * green b) / ao,
                    blue = (alpha s * blue s + (1 - alpha s) * alpha b * blue b) / ao,
                    alpha = ao\<rparr>)
      | Source_in \<Rightarrow>
          (let ao = alpha s * alpha b
           in if ao = 0 then transparent
              else \<lparr>red = red s, green = green s, blue = blue s, alpha = ao\<rparr>))"

text \<open>The 2D context: its bitmap, \<open>fillStyle\<close> and \<open>globalCompositeOperation\<close>.\<close>

record context2d =
  bitmap :: canvas
  fillStyle :: rgba
  globalCompositeOperation :: composite_op

text \<open>
  A new canvas element with its width and height set: transparent black, and a context
  with the default fill style (black) and operator (\<open>source-over\<close>).
\<close>

definition createCanvas :: "nat \<Rightarrow> nat \<Rightarrow> canvas" where
  "createCanvas w h = \<lparr>width = w, height = h, pixel = (\<lambda>x y. transparent)\<rparr>"

definition getContext :: "canvas \<Rightarrow> context2d" where
  "getContext c = \<lparr>bitmap = c, fillStyle = black, globalCompositeOperation = Source_over\<rparr>"

text \<open>
  \<open>fillRect\<close> and \<open>drawImage\<close>: the shape is rendered on a transparent bitmap and
  composited onto the whole output bitmap with the current operator.
\<close>

definition fillRect :: "nat \<Rightarrow> nat \<Rightarrow> nat \<Rightarrow> nat \<Rightarrow> context2d \<Rightarrow> context2d" where
  "fillRect x0 y0 w h ctx =
     ctx\<lparr>bitmap := (bitmap ctx)
           \<lparr>pixel := (\<lambda>x y. composite (globalCompositeOperation ctx)
                         (if x0 \<le> x \<and> x < x0 + w \<and> y0 \<le> y \<and> y < y0 + h
                          then fillStyle ctx else transparent)
                         (pixel (bitmap ctx) x y))\<rparr>\<rparr>"

definition drawImage :: "canvas \<Rightarrow> nat \<Rightarrow> nat \<Rightarrow> context2d \<Rightarrow> context2d" where
  "drawImage src dx dy ctx =
     ctx\<lparr>bitmap := (bitmap ctx)
           \<lparr>pixel := (\<lambda>x y. composite (globalCompositeOperation ctx)
                         (if dx \<le> x \<and> x < dx + width src \<and> dy \<le> y \<and> y < dy + height src
                          then pixel src (x - dx) (y - dy) else transparent)
                         (pixel (bitmap ctx) x y))\<rparr>\<rparr>"

text \<open>
  \<open>generateMaskImage\<close>: \<open>None\<close> when the drawing canvas is not mounted or no context
  can be had, else the bitmap that \<open>toDataURL\<close> encodes as PNG (the encoding is not
  modelled).
\<close>

definition generateMaskImage :: "canvas option \<Rightarrow> bool \<Rightarrow> canvas option" where
  "generateMaskImage drawingCanvasRef context_available =
     (case drawingCanvasRef of
        None \<Rightarrow> None
      | Some drawingCanvas \<Rightarrow>
          let maskCanvas = createCanvas (width drawingCanvas) (height drawingCanvas)
          in if \<not> context_available then None
             else (let maskCtx = getContext maskCanvas;
                       c1 = maskCtx\<lparr>fillStyle := black\<rparr>;
                       c2 = fillRect 0 0 (width maskCanvas) (height maskCanvas) c1;
                       c3 = c2\<lparr>globalCompositeOperation := Source_over\<rparr>;
                       c4 = drawImage drawingCanvas 0 0 c3;
                       c5 = c4\<lparr>globalCompositeOperation := Source_in\<rparr>;
                       c6 = c5\<lparr>fillStyle := white\<rparr>;
                       c7 = fillRect 0 0 (width maskCanvas) (height maskCanvas) c6
                   in Some (bitmap c7)))"

text \<open>Stroke layers for the examples: an empty one, and one with a single painted pixel.\<close>

definition empty_layer :: "nat \<Rightarrow> nat \<Rightarrow> canvas" where
  "empty_layer w h = createCanvas w h"

definition one_stroke_layer :: canvas where
  "one_stroke_layer =
     \<lparr>width = 2, height = 2, pixel = (\<lambda>x y. if x = 0 \<and> y = 0 then stroke_pink else transparent)\<rparr>"

text \<open>Reading a generated mask: its size and one of its pixels.\<close>

definition mask_size :: "canvas option \<Rightarrow> (nat \<times> nat) option" where
  "mask_size r = (case r of None \<Rightarrow> None | Some m \<Rightarrow> Some (width m, height m))"

definition mask_pixel :: "canvas option \<Rightarrow> nat \<Rightarrow> nat \<Rightarrow> rgba option" where
  "mask_pixel r x y = (case r of None \<Rightarrow> None | Some m \<Rightarrow> Some (pixel m x y))"

definition example_source :: SourceImage where
  "example_source = \<lparr>base64 = ''AAAA'', mimeType = ''image/png''\<rparr>"

definition example_mask :: SourceImage where
  "example_mask = \<lparr>base64 = ''MMMM'', mimeType = ''image/png''\<rparr>"


section \<open>Properties of the history store\<close>

declare safeSaveToLocalStorage.simps [simp del] safeSaveToLocalStorage_App.simps [simp del]

lemma js_slice0_prune: "js_slice0 xs (max 0 (int (length xs) - int k)) = take (length xs - k) xs"
  by (auto simp: js_slice0_def Let_def max_def min_def nat_diff_distrib')

lemma safeSave_quota:
  assumes "has_localStorage env" "setItem_throws env (items st) key (Array xs) = Some e" "quota_error e"
  shows "safeSaveToLocalStorage env key (Array xs) st =
     (if 2 < length xs
      then safeSaveToLocalStorage env key (Array (take (length xs - 2) xs))
             (st\<lparr>calls := calls st @ [SetItem key (Array xs)]\<rparr>)
      else removeItem key (st\<lparr>calls := calls st @ [SetItem key (Array xs)]\<rparr>))"
  using assms js_slice0_prune [of xs 2]
  by (subst safeSaveToLocalStorage.simps) (auto simp: setItem_def quota_error_def Let_def)

lemma safeSave_stored:
  assumes "has_localStorage env" "setItem_throws env (items st) key d = None"
  shows "safeSaveToLocalStorage env key d st =
     (Inr (), st\<lparr>calls := calls st @ [SetItem key d], items := (items st)(key \<mapsto> d)\<rparr>)"
  using assms
  by (subst safeSaveToLocalStorage.simps) (auto simp: setItem_def Let_def)

lemma safeSave_other:
  assumes "has_localStorage env" "setItem_throws env (items st) key d = Some e" "\<not> quota_error e"
  shows "safeSaveToLocalStorage env key d st = (Inr (), st\<lparr>calls := calls st @ [SetItem key d]\<rparr>)"
  using assms
  by (subst safeSaveToLocalStorage.simps) (auto simp: setItem_def Let_def quota_error_def)

lemma safeSave_nonarray:
  assumes "has_localStorage env" "setItem_throws env (items st) key (Other v) = Some e"
  shows "safeSaveToLocalStorage env key (Other v) st = (Inr (), st\<lparr>calls := calls st @ [SetItem key (Other v)]\<rparr>)"
  using assms
  by (subst safeSaveToLocalStorage.simps) (auto simp: setItem_def Let_def quota_error_def)

lemma safeSave_nowindow: "\<not> has_localStorage env \<Longrightarrow> safeSaveToLocalStorage env key d st = (Inr (), st)"
  by (subst safeSaveToLocalStorage.simps) simp

lemma safeSave_shape:
  assumes "has_localStorage env"
  shows "\<exists>ws rest. calls (snd (safeSaveToLocalStorage env key (Array xs) st)) =
            calls st @ map (\<lambda>ys. SetItem key (Array ys)) (xs # ws) @ rest
          \<and> (rest = [] \<or> rest = [RemoveItem key])
          \<and> retry_chain (quota_fails env st key) 2 (xs # ws)
          \<and> drops_at_least 2 (xs # ws)
          \<and> length (xs # ws) \<le> length xs div 2 + 1
          \<and> (rest = [RemoveItem key] \<longleftrightarrow> quota_fails env st key (last (xs # ws)))
          \<and> items (snd (safeSaveToLocalStorage env key (Array xs) st)) =
                (if quota_fails env st key (last (xs # ws)) then (items st)(key := None)
                 else if setItem_throws env (items st) key (Array (last (xs # ws))) = None
                      then (items st)(key \<mapsto> Array (last (xs # ws)))
                      else items st)
          \<and> fst (safeSaveToLocalStorage env key (Array xs) st) = Inr ()"
  using assms
proof (induction "length xs" arbitrary: xs st rule: less_induct)
  case less
  let ?c = "SetItem key (Array xs)"
  let ?st1 = "st\<lparr>calls := calls st @ [?c]\<rparr>"
  show ?case
  proof (cases "setItem_throws env (items st) key (Array xs)")
    case None
    then show ?thesis
      using less.prems by (intro exI [of _ "[]"]) (simp add: safeSave_stored quota_fails_def)
  next
    case (Some e)
    show ?thesis
    proof (cases "quota_error e")
      case False
      then show ?thesis
        using less.prems Some by (intro exI [of _ "[]"]) (simp add: safeSave_other quota_fails_def)
    next
      case True
      have qf: "quota_fails env st key xs" using Some True by (simp add: quota_fails_def)
      show ?thesis
      proof (cases "2 < length xs")
        case False
        then show ?thesis
          using less.prems Some True qf
          by (intro exI [of _ "[]"] exI [of _ "[RemoveItem key]"]) (simp add: safeSave_quota removeItem_def)
      next
        case long: True
        define p where "p = take (length xs - 2) xs"
        define st1 where "st1 = st\<lparr>calls := calls st @ [SetItem key (Array xs)]\<rparr>"
        have eq: "safeSaveToLocalStorage env key (Array xs) st = safeSaveToLocalStorage env key (Array p) st1"
          using less.prems Some True long by (simp add: safeSave_quota p_def st1_def)
        have lt: "length p < length xs" using long by (simp add: p_def)
        have dl: "length p + 2 \<le> length xs" using long by (simp add: p_def)
        have ieq: "items st1 = items st" and ceq: "calls st1 = calls st @ [SetItem key (Array xs)]"
          by (simp_all add: st1_def)
        have qeq: "quota_fails env st1 key = quota_fails env st key"
          by (rule ext) (simp add: quota_fails_def ieq)
        from less.hyps [OF lt less.prems, of st1] obtain ws rest where
          ih: "calls (snd (safeSaveToLocalStorage env key (Array p) st1)) =
                 calls st1 @ map (\<lambda>ys. SetItem key (Array ys)) (p # ws) @ rest"
              "rest = [] \<or> rest = [RemoveItem key]"
              "retry_chain (quota_fails env st key) 2 (p # ws)"
              "drops_at_least 2 (p # ws)"
              "length (p # ws) \<le> length p div 2 + 1"
              "rest = [RemoveItem key] \<longleftrightarrow> quota_fails env st key (last (p # ws))"
              "items (snd (safeSaveToLocalStorage env key (Array p) st1)) =
                (if quota_fails env st key (last (p # ws)) then (items st)(key := None)
                 else if setItem_throws env (items st) key (Array (last (p # ws))) = None
                      then (items st)(key \<mapsto> Array (last (p # ws)))
                      else items st)"
              "fst (safeSaveToLocalStorage env key (Array p) st1) = Inr ()"
          unfolding qeq ieq by blast
        have sp: "strict_prefix p xs" "p \<noteq> []"
          using long by (auto simp: strict_prefix_def take_is_prefix p_def)
        have len: "length (xs # p # ws) \<le> length xs div 2 + 1"
          using ih(5) dl by simp
        have c: "calls (snd (safeSaveToLocalStorage env key (Array p) st1)) =
                 calls st @ map (\<lambda>ys. SetItem key (Array ys)) (xs # p # ws) @ rest"
          using ih(1) by (simp add: ceq)
        have rc: "retry_chain (quota_fails env st key) 2 (xs # p # ws)"
          using ih(3) qf sp by simp
        have da: "drops_at_least 2 (xs # p # ws)"
          using ih(4) dl by simp
        have la: "last (xs # p # ws) = last (p # ws)" by simp
        show ?thesis
          unfolding eq la
          using c ih(2) rc da len ih(6,7,8)
          by (intro exI [of _ "p # ws"] exI [of _ rest] conjI) (simp_all only: la)
      qed
    qed
  qed
qed

lemma safeSave_App_quota:
  assumes "has_localStorage env" "setItem_throws env (items st) key (Array xs) = Some e" "quota_error e"
  shows "safeSaveToLocalStorage_App env key (Array xs) st =
     (if 3 < length xs
      then safeSaveToLocalStorage_App env key (Array (take (length xs - 3) xs))
             (st\<lparr>calls := calls st @ [SetItem key (Array xs)]\<rparr>)
      else (Inr (), st\<lparr>calls := calls st @ [SetItem key (Array xs)]\<rparr>))"
  using assms js_slice0_prune [of xs 3]
  by (subst safeSaveToLocalStorage_App.simps) (auto simp: setItem_def quota_error_def Let_def)

lemma safeSave_App_stored:
  assumes "has_localStorage env" "setItem_throws env (items st) key d = None"
  shows "safeSaveToLocalStorage_App env key d st =
     (Inr (), st\<lparr>calls := calls st @ [SetItem key d], items := (items st)(key \<mapsto> d)\<rparr>)"
  using assms
  by (subst safeSaveToLocalStorage_App.simps) (auto simp: setItem_def Let_def)

lemma safeSave_App_other:
  assumes "has_localStorage env" "setItem_throws env (items st) key d = Some e" "\<not> quota_error e"
  shows "safeSaveToLocalStorage_App env key d st = (Inr (), st\<lparr>calls := calls st @ [SetItem key d]\<rparr>)"
  using assms
  by (subst safeSaveToLocalStorage_App.simps) (auto simp: setItem_def Let_def quota_error_def)

lemma safeSave_App_nonarray:
  assumes "has_localStorage env" "setItem_throws env (items st) key (Other v) = Some e"
  shows "safeSaveToLocalStorage_App env key (Other v) st = (Inr (), st\<lparr>calls := calls st @ [SetItem key (Other v)]\<rparr>)"
  using assms
  by (subst safeSaveToLocalStorage_App.simps) (auto simp: setItem_def Let_def quota_error_def)

lemma safeSave_App_nowindow: "\<not> has_localStorage env \<Longrightarrow> safeSaveToLocalStorage_App env key d st = (Inr (), st)"
  by (subst safeSaveToLocalStorage_App.simps) simp

lemma safeSave_App_shape:
  assumes "has_localStorage env"
  shows "\<exists>ws. calls (snd (safeSaveToLocalStorage_App env key (Array xs) st)) =
            calls st @ map (\<lambda>ys. SetItem key (Array ys)) (xs # ws)
          \<and> retry_chain (quota_fails env st key) 3 (xs # ws)
          \<and> drops_at_least 3 (xs # ws)
          \<and> length (xs # ws) \<le> length xs div 3 + 1
          \<and> items (snd (safeSaveToLocalStorage_App env key (Array xs) st)) =
                (if setItem_throws env (items st) key (Array (last (xs # ws))) = None
                 then (items st)(key \<mapsto> Array (last (xs # ws)))
                 else items st)
          \<and> fst (safeSaveToLocalStorage_App env key (Array xs) st) = Inr ()"
  using assms
proof (induction "length xs" arbitrary: xs st rule: less_induct)
  case less
  show ?case
  proof (cases "setItem_throws env (items st) key (Array xs)")
    case None
    then show ?thesis
      using less.prems by (intro exI [of _ "[]"]) (simp add: safeSave_App_stored quota_fails_def)
  next
    case (Some e)
    show ?thesis
    proof (cases "quota_error e")
      case False
      then show ?thesis
        using less.prems Some by (intro exI [of _ "[]"]) (simp add: safeSave_App_other quota_fails_def)
    next
      case True
      have qf: "quota_fails env st key xs" using Some True by (simp add: quota_fails_def)
      show ?thesis
      proof (cases "3 < length xs")
        case False
        then show ?thesis
          using less.prems Some True qf
          by (intro exI [of _ "[]"]) (simp add: safeSave_App_quota)
      next
        case long: True
        define p where "p = take (length xs - 3) xs"
        define st1 where "st1 = st\<lparr>calls := calls st @ [SetItem key (Array xs)]\<rparr>"
        have eq: "safeSaveToLocalStorage_App env key (Array xs) st = safeSaveToLocalStorage_App env key (Array p) st1"
          using less.prems Some True long by (simp add: safeSave_App_quota p_def st1_def)
        have lt: "length p < length xs" using long by (simp add: p_def)
        have dl: "length p + 3 \<le> length xs" using long by (simp add: p_def)
        have ieq: "items st1 = items st" and ceq: "calls st1 = calls st @ [SetItem key (Array xs)]"
          by (simp_all add: st1_def)
        have qeq: "quota_fails env st1 key = quota_fails env st key"
          by (rule ext) (simp add: quota_fails_def ieq)
        from less.hyps [OF lt less.prems, of st1] obtain ws where
          ih: "calls (snd (safeSaveToLocalStorage_App env key (Array p) st1)) =
                 calls st1 @ map (\<lambda>ys. SetItem key (Array ys)) (p # ws)"
              "retry_chain (quota_fails env st key) 3 (p # ws)"
              "drops_at_least 3 (p # ws)"
              "length (p # ws) \<le> length p div 3 + 1"
              "items (snd (safeSaveToLocalStorage_App env key (Array p) st1)) =
                (if setItem_throws env (items st) key (Array (last (p # ws))) = None
                 then (items st)(key \<mapsto> Array (last (p # ws)))
                 else items st)"
              "fst (safeSaveToLocalStorage_App env key (Array p) st1) = Inr ()"
          unfolding qeq ieq by blast
        have sp: "strict_prefix p xs" "p \<noteq> []"
          using long by (auto simp: strict_prefix_def take_is_prefix p_def)
        have len: "length (xs # p # ws) \<le> length xs div 3 + 1"
          using ih(4) dl by simp
        have c: "calls (snd (safeSaveToLocalStorage_App env key (Array p) st1)) =
                 calls st @ map (\<lambda>ys. SetItem key (Array ys)) (xs # p # ws)"
          using ih(1) by (simp add: ceq)
        have rc: "retry_chain (quota_fails env st key) 3 (xs # p # ws)"
          using ih(2) qf sp by simp
        have da: "drops_at_least 3 (xs # p # ws)"
          using ih(3) dl by simp
        have la: "last (xs # p # ws) = last (p # ws)" by simp
        show ?thesis
          unfolding eq la
          using c rc da len ih(5,6)
          by (intro exI [of _ "p # ws"] conjI) (simp_all only: la)
      qed
    qed
  qed
qed

lemma writes_map: "writes key (map (\<lambda>ys. SetItem key (Array ys)) ws @ rest) = ws @ writes key rest"
  by (induction ws) simp_all

lemma drops_at_least_mono: "drops_at_least d ws \<Longrightarrow> e \<le> d \<Longrightarrow> drops_at_least e ws"
  by (induction e ws rule: drops_at_least.induct) auto

lemma safeSave_never_throws: "fst (safeSaveToLocalStorage env key d st) = Inr ()"
proof (cases "has_localStorage env")
  case False
  then show ?thesis by (simp add: safeSave_nowindow)
next
  case True
  show ?thesis
  proof (cases d)
    case (Array xs)
    then show ?thesis using safeSave_shape [OF True, of key xs st] by blast
  next
    case (Other v)
    then show ?thesis
      using True by (cases "setItem_throws env (items st) key (Other v)") (simp_all add: safeSave_stored safeSave_nonarray)
  qed
qed

lemma safeSave_App_never_throws: "fst (safeSaveToLocalStorage_App env key d st) = Inr ()"
proof (cases "has_localStorage env")
  case False
  then show ?thesis by (simp add: safeSave_App_nowindow)
next
  case True
  show ?thesis
  proof (cases d)
    case (Array xs)
    then show ?thesis using safeSave_App_shape [OF True, of key xs st] by blast
  next
    case (Other v)
    then show ?thesis
      using True by (cases "setItem_throws env (items st) key (Other v)") (simp_all add: safeSave_App_stored safeSave_App_nonarray)
  qed
qed

lemma safeSave_writes:
  assumes "has_localStorage env"
  shows "\<exists>ws. writes key (new_calls st (snd (safeSaveToLocalStorage env key (Array xs) st))) = xs # ws
     \<and> retry_chain (quota_fails env st key) 2 (xs # ws) \<and> drops_at_least 2 (xs # ws)
     \<and> length (xs # ws) \<le> length xs div 2 + 1
     \<and> length (new_calls st (snd (safeSaveToLocalStorage env key (Array xs) st))) \<le> length xs div 2 + 2"
proof -
  from safeSave_shape [OF assms, of key xs st] obtain ws rest where
    h: "calls (snd (safeSaveToLocalStorage env key (Array xs) st)) =
            calls st @ map (\<lambda>ys. SetItem key (Array ys)) (xs # ws) @ rest"
       "rest = [] \<or> rest = [RemoveItem key]"
       "retry_chain (quota_fails env st key) 2 (xs # ws)"
       "drops_at_least 2 (xs # ws)"
       "length (xs # ws) \<le> length xs div 2 + 1"
    by blast
  have nc: "new_calls st (snd (safeSaveToLocalStorage env key (Array xs) st)) =
        map (\<lambda>ys. SetItem key (Array ys)) (xs # ws) @ rest"
    by (simp add: new_calls_def h(1))
  have w: "writes key (map (\<lambda>ys. SetItem key (Array ys)) (xs # ws) @ rest) = xs # ws"
    using h(2) by (auto simp only: writes_map writes.simps append_Nil2)
  have l: "length (map (\<lambda>ys. SetItem key (Array ys)) (xs # ws) @ rest) \<le> length xs div 2 + 2"
    using h(2,5) by auto
  show ?thesis
    unfolding nc w using h(3,4,5) l by blast
qed

lemma safeSave_App_writes:
  assumes "has_localStorage env"
  shows "\<exists>ws. writes key (new_calls st (snd (safeSaveToLocalStorage_App env key (Array xs) st))) = xs # ws
     \<and> retry_chain (quota_fails env st key) 3 (xs # ws) \<and> drops_at_least 3 (xs # ws)
     \<and> length (xs # ws) \<le> length xs div 3 + 1
     \<and> length (new_calls st (snd (safeSaveToLocalStorage_App env key (Array xs) st))) \<le> length xs div 3 + 1"
proof -
  from safeSave_App_shape [OF assms, of key xs st] obtain ws where
    h: "calls (snd (safeSaveToLocalStorage_App env key (Array xs) st)) =
            calls st @ map (\<lambda>ys. SetItem key (Array ys)) (xs # ws)"
       "retry_chain (quota_fails env st key) 3 (xs # ws)"
       "drops_at_least 3 (xs # ws)"
       "length (xs # ws) \<le> length xs div 3 + 1"
    by blast
  have nc: "new_calls st (snd (safeSaveToLocalStorage_App env key (Array xs) st)) =
        map (\<lambda>ys. SetItem key (Array ys)) (xs # ws)"
    by (simp add: new_calls_def h(1))
  have w: "writes key (map (\<lambda>ys. SetItem key (Array ys)) (xs # ws)) = xs # ws"
    using writes_map [of key "xs # ws" "[]"] by simp
  have l: "length (map (\<lambda>ys. SetItem key (Array ys)) (xs # ws)) \<le> length xs div 3 + 1"
    using h(4) by auto
  show ?thesis
    unfolding nc w using h(2,3,4) l by blast
qed

lemma retry_chain_nonempty: "retry_chain qf d (x # ws) \<Longrightarrow> [] \<notin> set ws"
  by (induction ws arbitrary: x) auto

lemma safeSave_removes_key_when_emptied:
  assumes "has_localStorage env"
      and "quota_fails env st key (last (writes key (new_calls st (snd (safeSaveToLocalStorage env key (Array xs) st)))))"
  shows "items (snd (safeSaveToLocalStorage env key (Array xs) st)) key = None
       \<and> last (calls (snd (safeSaveToLocalStorage env key (Array xs) st))) = RemoveItem key
       \<and> [] \<notin> set (tl (writes key (new_calls st (snd (safeSaveToLocalStorage env key (Array xs) st)))))"
proof -
  from safeSave_shape [OF assms(1), of key xs st] obtain ws rest where
    h: "calls (snd (safeSaveToLocalStorage env key (Array xs) st)) =
            calls st @ map (\<lambda>ys. SetItem key (Array ys)) (xs # ws) @ rest"
       "rest = [] \<or> rest = [RemoveItem key]"
       "retry_chain (quota_fails env st key) 2 (xs # ws)"
       "rest = [RemoveItem key] \<longleftrightarrow> quota_fails env st key (last (xs # ws))"
       "items (snd (safeSaveToLocalStorage env key (Array xs) st)) =
                (if quota_fails env st key (last (xs # ws)) then (items st)(key := None)
                 else if setItem_throws env (items st) key (Array (last (xs # ws))) = None
                      then (items st)(key \<mapsto> Array (last (xs # ws)))
                      else items st)"
    by blast
  have nc: "new_calls st (snd (safeSaveToLocalStorage env key (Array xs) st)) =
        map (\<lambda>ys. SetItem key (Array ys)) (xs # ws) @ rest"
    by (simp add: new_calls_def h(1))
  have w: "writes key (map (\<lambda>ys. SetItem key (Array ys)) (xs # ws) @ rest) = xs # ws"
    using h(2) by (auto simp only: writes_map writes.simps append_Nil2)
  have q: "quota_fails env st key (last (xs # ws))"
    using assms(2) unfolding nc w .
  with h(4) have r: "rest = [RemoveItem key]" by simp
  have 1: "items (snd (safeSaveToLocalStorage env key (Array xs) st)) key = None"
    using h(5) q by simp
  have 2: "last (calls (snd (safeSaveToLocalStorage env key (Array xs) st))) = RemoveItem key"
    unfolding h(1) r by simp
  have 3: "[] \<notin> set (tl (xs # ws))"
    using retry_chain_nonempty [OF h(3)] by simp
  show ?thesis
    unfolding nc w using 1 2 3 by blast
qed

lemma quota_env_simps:
  "has_localStorage (quota_env n)"
  "setItem_throws (quota_env n) its k d =
     (if n < data_size d then Some \<lparr>err_name = ''QuotaExceededError'', err_code = Some 22\<rparr> else None)"
  by (simp_all add: quota_env_def)

text \<open>
  C2. For every key and every list, a write that fails with a quota error is retried
  with a strictly shorter list (a non-empty strict prefix: tail entries dropped), and
  this repeats until a write does not fail with a quota error or nothing is left after
  pruning; the failure never reaches the caller: both versions of
  \<open>safeSaveToLocalStorage\<close> return normally on every input.
\<close>

theorem safeSave_retries_shorter_never_throws:
  "fst (safeSaveToLocalStorage env key d st) = Inr ()
   \<and> fst (safeSaveToLocalStorage_App env key d st) = Inr ()
   \<and> (has_localStorage env \<longrightarrow>
        retry_chain (quota_fails env st key) 2
          (writes key (new_calls st (snd (safeSaveToLocalStorage env key (Array xs) st))))
      \<and> hd (writes key (new_calls st (snd (safeSaveToLocalStorage env key (Array xs) st)))) = xs
      \<and> retry_chain (quota_fails env st key) 3
          (writes key (new_calls st (snd (safeSaveToLocalStorage_App env key (Array xs) st))))
      \<and> hd (writes key (new_calls st (snd (safeSaveToLocalStorage_App env key (Array xs) st)))) = xs)"
proof (intro conjI impI)
  show "fst (safeSaveToLocalStorage env key d st) = Inr ()" by (rule safeSave_never_throws)
  show "fst (safeSaveToLocalStorage_App env key d st) = Inr ()" by (rule safeSave_App_never_throws)
next
  assume w: "has_localStorage env"
  from safeSave_writes [OF w, of key st xs] obtain ws where
    u: "writes key (new_calls st (snd (safeSaveToLocalStorage env key (Array xs) st))) = xs # ws"
       "retry_chain (quota_fails env st key) 2 (xs # ws)" by blast
  from safeSave_App_writes [OF w, of key st xs] obtain vs where
    a: "writes key (new_calls st (snd (safeSaveToLocalStorage_App env key (Array xs) st))) = xs # vs"
       "retry_chain (quota_fails env st key) 3 (xs # vs)" by blast
  show "retry_chain (quota_fails env st key) 2
          (writes key (new_calls st (snd (safeSaveToLocalStorage env key (Array xs) st))))"
    using u by simp
  show "hd (writes key (new_calls st (snd (safeSaveToLocalStorage env key (Array xs) st)))) = xs"
    using u by simp
  show "retry_chain (quota_fails env st key) 3
          (writes key (new_calls st (snd (safeSaveToLocalStorage_App env key (Array xs) st))))"
    using a by simp
  show "hd (writes key (new_calls st (snd (safeSaveToLocalStorage_App env key (Array xs) st)))) = xs"
    using a by simp
qed

theorem safeSave_retries_shorter_never_throws_witness:
  "has_localStorage (quota_env 1 :: nat env)
   \<and> fst (safeSaveToLocalStorage (quota_env 1) ''k'' (Array [1, 2, 3, 4, 5 :: nat]) empty_storage) = Inr ()
   \<and> writes ''k'' (new_calls empty_storage
        (snd (safeSaveToLocalStorage (quota_env 1) ''k'' (Array [1, 2, 3, 4, 5 :: nat]) empty_storage)))
      = [[1, 2, 3, 4, 5], [1, 2, 3], [1]]
   \<and> retry_chain (quota_fails (quota_env 1) empty_storage ''k'') 2
        (writes ''k'' (new_calls empty_storage
          (snd (safeSaveToLocalStorage (quota_env 1) ''k'' (Array [1, 2, 3, 4, 5 :: nat]) empty_storage))))"
proof -
  have w: "has_localStorage (quota_env 1 :: nat env)" by (simp add: quota_env_simps)
  have e: "writes ''k'' (new_calls empty_storage
        (snd (safeSaveToLocalStorage (quota_env 1) ''k'' (Array [1, 2, 3, 4, 5 :: nat]) empty_storage)))
      = [[1, 2, 3, 4, 5], [1, 2, 3], [1]]"
    by (simp add: safeSaveToLocalStorage.simps setItem_def removeItem_def quota_env_simps
          data_size_def js_slice0_def empty_storage_def new_calls_def Let_def)
  show ?thesis
    using safeSave_retries_shorter_never_throws
            [of "quota_env 1" "''k''" "Array [1, 2, 3, 4, 5 :: nat]" empty_storage "[1, 2, 3, 4, 5]"] w e
    by simp
qed

text \<open>
  C10. \<open>safeSaveToLocalStorage\<close> is a total function (its recursion is accepted with
  the length of the list as measure). Each retry writes a list at least two entries
  shorter than the previous one, and a run on a list of \<open>n\<close> entries makes at most
  \<open>n div 2 + 2\<close> storage calls (\<open>n div 3 + 1\<close> in the application shell).
\<close>

theorem safeSave_bounded_retries:
  "drops_at_least 2 (writes key (new_calls st (snd (safeSaveToLocalStorage env key (Array xs) st))))
   \<and> length (new_calls st (snd (safeSaveToLocalStorage env key (Array xs) st))) \<le> length xs div 2 + 2
   \<and> drops_at_least 2 (writes key (new_calls st (snd (safeSaveToLocalStorage_App env key (Array xs) st))))
   \<and> length (new_calls st (snd (safeSaveToLocalStorage_App env key (Array xs) st))) \<le> length xs div 3 + 1"
proof (cases "has_localStorage env")
  case False
  then show ?thesis
    by (simp add: safeSave_nowindow safeSave_App_nowindow new_calls_def)
next
  case True
  from safeSave_writes [OF True, of key st xs] obtain ws where
    u: "writes key (new_calls st (snd (safeSaveToLocalStorage env key (Array xs) st))) = xs # ws"
       "drops_at_least 2 (xs # ws)"
       "length (new_calls st (snd (safeSaveToLocalStorage env key (Array xs) st))) \<le> length xs div 2 + 2"
    by blast
  from safeSave_App_writes [OF True, of key st xs] obtain vs where
    a: "writes key (new_calls st (snd (safeSaveToLocalStorage_App env key (Array xs) st))) = xs # vs"
       "drops_at_least 3 (xs # vs)"
       "length (new_calls st (snd (safeSaveToLocalStorage_App env key (Array xs) st))) \<le> length xs div 3 + 1"
    by blast
  have "drops_at_least 2 (xs # vs)"
    using drops_at_least_mono [OF a(2), of 2] by simp
  then show ?thesis
    using u a by simp
qed

theorem safeSave_bounded_retries_witness:
  "new_calls empty_storage
     (snd (safeSaveToLocalStorage (quota_env 0) ''k'' (Array [1, 2, 3, 4, 5 :: nat]) empty_storage))
   = [SetItem ''k'' (Array [1, 2, 3, 4, 5]), SetItem ''k'' (Array [1, 2, 3]), SetItem ''k'' (Array [1]),
      RemoveItem ''k'']
   \<and> length (new_calls empty_storage
       (snd (safeSaveToLocalStorage (quota_env 0) ''k'' (Array [1, 2, 3, 4, 5 :: nat]) empty_storage)))
      \<le> length [1, 2, 3, 4, 5 :: nat] div 2 + 2"
proof -
  have e: "new_calls empty_storage
     (snd (safeSaveToLocalStorage (quota_env 0) ''k'' (Array [1, 2, 3, 4, 5 :: nat]) empty_storage))
   = [SetItem ''k'' (Array [1, 2, 3, 4, 5]), SetItem ''k'' (Array [1, 2, 3]), SetItem ''k'' (Array [1]),
      RemoveItem ''k'']"
    by (simp add: safeSaveToLocalStorage.simps setItem_def removeItem_def quota_env_simps
          data_size_def js_slice0_def empty_storage_def new_calls_def Let_def)
  show ?thesis
    using safeSave_bounded_retries [of "''k''" empty_storage "quota_env 0" "[1, 2, 3, 4, 5 :: nat]"] e
    by blast
qed

text \<open>
  C5. When pruning empties the list, the application shell's
  \<open>safeSaveToLocalStorage\<close> does not delete the key: with a store that rejects every
  non-empty list and holds an older history under \<open>editHistory\<close>, saving a list of five
  entries tries the five entries, then the first two, and stops; no \<open>removeItem\<close> is
  issued and the older history stays persisted. (The version of
  \<open>components/UtilitiesTab.tsx\<close> does delete the key:
  \<open>safeSave_removes_key_when_emptied\<close>.)
\<close>

theorem safeSave_App_keeps_key_when_emptied:
  "calls (snd (safeSaveToLocalStorage_App (quota_env 0) ''editHistory'' (Array [5, 1, 2, 3, 4 :: nat])
       \<lparr>items = [''editHistory'' \<mapsto> Array [1, 2, 3, 4]], calls = []\<rparr>))
   = [SetItem ''editHistory'' (Array [5, 1, 2, 3, 4]), SetItem ''editHistory'' (Array [5, 1])]
   \<and> items (snd (safeSaveToLocalStorage_App (quota_env 0) ''editHistory'' (Array [5, 1, 2, 3, 4 :: nat])
       \<lparr>items = [''editHistory'' \<mapsto> Array [1, 2, 3, 4]], calls = []\<rparr>)) ''editHistory''
     = Some (Array [1, 2, 3, 4])"
  by (simp add: safeSaveToLocalStorage_App.simps setItem_def quota_env_simps
        data_size_def js_slice0_def Let_def)

section \<open>Properties of the generation orchestrator\<close>

lemma promise_all_resolved: "promise_all (map Inr xs) = Inr xs"
  by (induction xs) simp_all

lemma generateImages_resolved:
  assumes key: "apiKey = Some k" "k \<noteq> []"
      and len: "length rs = count"
      and res: "\<forall>i<count. api i (generation_request sourceImage prompt referenceImage aspectRatio isHighQuality) = Inr (rs ! i)"
  shows "generateImages apiKey api sourceImage prompt rt count referenceImage isAnglePrompt useRawPrompt aspectRatio isHighQuality
         = (replicate count (generation_request sourceImage prompt referenceImage aspectRatio isHighQuality),
            Inr (List.map_filter extractBase64Image rs))"
proof -
  let ?req = "generation_request sourceImage prompt referenceImage aspectRatio isHighQuality"
  have "map (\<lambda>i. case api i ?req of Inl e \<Rightarrow> Inl e | Inr resp \<Rightarrow> Inr (extractBase64Image resp)) [0..<count]
        = map (\<lambda>i. Inr (extractBase64Image (rs ! i))) [0..<count]"
    using res by simp
  also have "\<dots> = map Inr (map extractBase64Image (map ((!) rs) [0..<length rs]))"
    by (simp add: len)
  also have "\<dots> = map Inr (map extractBase64Image rs)"
    by (simp only: map_nth)
  finally have m: "map (\<lambda>i. case api i ?req of Inl e \<Rightarrow> Inl e | Inr resp \<Rightarrow> Inr (extractBase64Image resp)) [0..<count]
        = map Inr (map extractBase64Image rs)" .
  have f: "map the (filter (\<lambda>result. result \<noteq> None) (map extractBase64Image rs)) = List.map_filter extractBase64Image rs"
    by (induction rs) (auto simp: List.map_filter_def)
  have g: "getGenAI apiKey = Inr k"
    using key by (simp add: getGenAI_def)
  show ?thesis
    unfolding generateImages_def g Let_def m promise_all_resolved
    by (simp add: f del: not_None_eq)
qed

lemma promise_all_rejected: "\<exists>p\<in>set ps. isl p \<Longrightarrow> isl (promise_all ps)"
proof (induction ps)
  case Nil
  then show ?case by simp
next
  case (Cons p ps)
  show ?case
  proof (cases p)
    case (Inl e)
    then show ?thesis by simp
  next
    case (Inr x)
    with Cons.prems have "\<exists>q\<in>set ps. isl q" by auto
    from Cons.IH [OF this] obtain e where "promise_all ps = Inl e"
      by (cases "promise_all ps") auto
    with Inr show ?thesis by simp
  qed
qed

lemma generateImages_requests:
  assumes "apiKey = Some k" and "k \<noteq> []"
  shows "fst (generateImages apiKey api sourceImage prompt rt count referenceImage isAnglePrompt
                useRawPrompt aspectRatio isHighQuality)
         = replicate count (generation_request sourceImage prompt referenceImage aspectRatio isHighQuality)"
  using assms by (simp add: generateImages_def getGenAI_def Let_def)

lemma generateImages_no_key:
  assumes "apiKey = None \<or> apiKey = Some []"
  shows "generateImages apiKey api sourceImage prompt rt count referenceImage isAnglePrompt
           useRawPrompt aspectRatio isHighQuality = ([], Inl API_KEY_MISSING)"
  using assms by (auto simp: generateImages_def getGenAI_def)

lemma generateImages_rejected:
  assumes "apiKey = Some k" and "k \<noteq> []"
      and "\<exists>i<count. isl (api i (generation_request sourceImage prompt referenceImage aspectRatio isHighQuality))"
  shows "isl (snd (generateImages apiKey api sourceImage prompt rt count referenceImage isAnglePrompt
                useRawPrompt aspectRatio isHighQuality))"
proof -
  let ?req = "generation_request sourceImage prompt referenceImage aspectRatio isHighQuality"
  let ?ps = "map (\<lambda>i. case api i ?req of Inl e \<Rightarrow> Inl e | Inr resp \<Rightarrow> Inr (extractBase64Image resp)) [0..<count]"
  from assms(3) obtain i where i: "i < count" "isl (api i ?req)" by blast
  then have "isl (case api i ?req of Inl e \<Rightarrow> Inl e | Inr resp \<Rightarrow> Inr (extractBase64Image resp))"
    by (cases "api i ?req") simp_all
  with i(1) have "\<exists>p\<in>set ?ps. isl p" by auto
  then have "isl (promise_all ?ps)" by (rule promise_all_rejected)
  then obtain e where e: "promise_all ?ps = Inl e" by (cases "promise_all ?ps") auto
  have g: "getGenAI apiKey = Inr k"
    using assms(1,2) by (simp add: getGenAI_def)
  show ?thesis
    unfolding generateImages_def g Let_def by (simp add: e)
qed

text \<open>
  C4. Without an API key \<open>generateImages\<close> issues no request and fails with
  \<open>API_KEY_MISSING\<close>. With a key it issues exactly \<open>N\<close> requests (the same request
  \<open>N\<close> times, none repeated afterwards). When every request resolves, it returns
  exactly the images extracted from the responses, in the order the requests were
  issued, with the responses that hold no inline image dropped. When a request is
  rejected, the whole call is rejected and no image is returned.
\<close>

theorem generateImages_all_resolved_or_rejected:
  "(apiKey = None \<or> apiKey = Some [] \<longrightarrow>
      generateImages apiKey api sourceImage prompt rt count referenceImage isAnglePrompt
        useRawPrompt aspectRatio isHighQuality = ([], Inl API_KEY_MISSING))
   \<and> (apiKey = Some k \<and> k \<noteq> [] \<longrightarrow>
        fst (generateImages apiKey api sourceImage prompt rt count referenceImage isAnglePrompt
               useRawPrompt aspectRatio isHighQuality)
          = replicate count (generation_request sourceImage prompt referenceImage aspectRatio isHighQuality)
      \<and> (length rs = count
          \<and> (\<forall>i<count. api i (generation_request sourceImage prompt referenceImage aspectRatio isHighQuality)
                           = Inr (rs ! i))
          \<longrightarrow> snd (generateImages apiKey api sourceImage prompt rt count referenceImage isAnglePrompt
                      useRawPrompt aspectRatio isHighQuality)
                = Inr (List.map_filter extractBase64Image rs))
      \<and> ((\<exists>i<count. isl (api i (generation_request sourceImage prompt referenceImage aspectRatio
                                    isHighQuality)))
          \<longrightarrow> isl (snd (generateImages apiKey api sourceImage prompt rt count referenceImage isAnglePrompt
                           useRawPrompt aspectRatio isHighQuality))))"
proof (intro conjI impI)
  assume "apiKey = None \<or> apiKey = Some []"
  then show "generateImages apiKey api sourceImage prompt rt count referenceImage isAnglePrompt
        useRawPrompt aspectRatio isHighQuality = ([], Inl API_KEY_MISSING)"
    by (rule generateImages_no_key)
next
  assume k: "apiKey = Some k \<and> k \<noteq> []"
  then show "fst (generateImages apiKey api sourceImage prompt rt count referenceImage isAnglePrompt
               useRawPrompt aspectRatio isHighQuality)
          = replicate count (generation_request sourceImage prompt referenceImage aspectRatio isHighQuality)"
    by (simp add: generateImages_requests)
next
  assume k: "apiKey = Some k \<and> k \<noteq> []"
  assume r: "length rs = count
          \<and> (\<forall>i<count. api i (generation_request sourceImage prompt referenceImage aspectRatio isHighQuality)
                           = Inr (rs ! i))"
  show "snd (generateImages apiKey api sourceImage prompt rt count referenceImage isAnglePrompt
                      useRawPrompt aspectRatio isHighQuality)
                = Inr (List.map_filter extractBase64Image rs)"
    using k r
          generateImages_resolved [of apiKey k rs count api sourceImage prompt referenceImage aspectRatio
                                      isHighQuality rt isAnglePrompt useRawPrompt]
    by simp
next
  assume k: "apiKey = Some k \<and> k \<noteq> []"
  assume "\<exists>i<count. isl (api i (generation_request sourceImage prompt referenceImage aspectRatio
                                    isHighQuality))"
  with k show "isl (snd (generateImages apiKey api sourceImage prompt rt count referenceImage isAnglePrompt
                           useRawPrompt aspectRatio isHighQuality))"
    using generateImages_rejected [of apiKey k count api sourceImage prompt referenceImage aspectRatio
                                      isHighQuality rt isAnglePrompt useRawPrompt]
    by simp
qed

theorem generateImages_all_resolved_or_rejected_witness:
  "generateImages None (list_api example_responses) example_source ''render'' Exterior 4 None False False
      ''original'' False = ([], Inl API_KEY_MISSING)
   \<and> length (fst (generateImages (Some ''k'')
        (list_api [image_response ''AAAA'', image_response ''BBBB'', text_response, image_response ''DDDD''])
        example_source ''render'' Exterior 4 None False False ''original'' False)) = 4
   \<and> snd (generateImages (Some ''k'')
        (list_api [image_response ''AAAA'', image_response ''BBBB'', text_response, image_response ''DDDD''])
        example_source ''render'' Exterior 4 None False False ''original'' False)
       = Inr [''data:image/png;base64,AAAA'', ''data:image/png;base64,BBBB'', ''data:image/png;base64,DDDD'']
   \<and> isl (rejecting_api 2 example_responses 2
            (generation_request example_source ''render'' None ''original'' False))
   \<and> isl (snd (generateImages (Some ''k'') (rejecting_api 2 example_responses) example_source ''render''
                  Exterior 4 None False False ''original'' False))"
proof -
  let ?rs = "[image_response ''AAAA'', image_response ''BBBB'', text_response, image_response ''DDDD'']"
  let ?req = "generation_request example_source ''render'' None ''original'' False"
  have a: "\<forall>i<4. list_api ?rs i ?req = Inr (?rs ! i)"
    by (simp add: list_api_def)
  have m: "List.map_filter extractBase64Image ?rs
       = [''data:image/png;base64,AAAA'', ''data:image/png;base64,BBBB'', ''data:image/png;base64,DDDD'']"
    by (simp add: List.map_filter_def extractBase64Image_def image_response_def text_response_def)
  have j: "isl (rejecting_api 2 example_responses 2 ?req)"
    by (simp add: rejecting_api_def)
  then have e: "\<exists>i<4. isl (rejecting_api 2 example_responses i ?req)"
    by (intro exI [of _ 2]) simp
  show ?thesis
    using generateImages_all_resolved_or_rejected
            [of None "list_api example_responses" example_source "''render''" Exterior 4 None False False
                "''original''" False "''k''" ?rs]
          generateImages_all_resolved_or_rejected
            [of "Some ''k''" "list_api ?rs" example_source "''render''" Exterior 4 None False False
                "''original''" False "''k''" ?rs]
          generateImages_all_resolved_or_rejected
            [of "Some ''k''" "rejecting_api 2 example_responses" example_source "''render''" Exterior 4 None
                False False "''original''" False "''k''" ?rs]
          a m j e
    by simp
qed

theorem generateImages_rejection_counterexample:
  "rejecting_api 2 example_responses 0 (generation_request example_source ''render'' None ''original'' False)
     = Inr (image_response ''AAAA'')
   \<and> rejecting_api 2 example_responses 1 (generation_request example_source ''render'' None ''original'' False)
     = Inr (image_response ''BBBB'')
   \<and> rejecting_api 2 example_responses 2 (generation_request example_source ''render'' None ''original'' False)
     = Inl Rejected
   \<and> rejecting_api 2 example_responses 3 (generation_request example_source ''render'' None ''original'' False)
     = Inr (image_response ''DDDD'')
   \<and> snd (generateImages (Some ''k'') (rejecting_api 2 example_responses) example_source ''render''
            Exterior 4 None False False ''original'' False) = Inl Rejected
   \<and> snd (generateImages (Some ''k'') (rejecting_api 2 example_responses) example_source ''render''
            Exterior 4 None False False ''original'' False)
       \<noteq> Inr [''data:image/png;base64,AAAA'', ''data:image/png;base64,BBBB'', ''data:image/png;base64,DDDD'']"
  by (simp add: generateImages_def getGenAI_def Let_def rejecting_api_def list_api_def
        example_responses_def extractBase64Image_def image_response_def numeral_eq_Suc upt_rec)

text \<open>
  C6. \<open>getApiKey\<close> of \<open>services/geminiService.ts\<close> returns the value stored under
  \<open>gemini_api_key\<close> when \<open>window\<close> is defined and that value is a non-empty string,
  otherwise \<open>process.env.API_KEY\<close> when that is a non-empty string, otherwise
  \<open>null\<close>. The \<open>getApiKey\<close> of the other copy of the service returns its hardcoded
  literal whatever is stored.
\<close>

theorem getApiKey_precedence:
  "getApiKey ke =
     (if window_defined ke \<and> getItem ke ''gemini_api_key'' \<noteq> None \<and> getItem ke ''gemini_api_key'' \<noteq> Some []
      then getItem ke ''gemini_api_key''
      else if env_API_KEY ke \<noteq> None \<and> env_API_KEY ke \<noteq> Some [] then env_API_KEY ke
      else None)
   \<and> getApiKey_hardcoded literal ke = Some literal"
  by (auto simp: getApiKey_def getApiKey_hardcoded_def Let_def split: option.splits)

theorem getApiKey_precedence_witness:
  "getApiKey (stored_key_env ''stored-key'' ''env-key'') = Some ''stored-key''
   \<and> getApiKey (stored_key_env [] ''env-key'') = Some ''env-key''
   \<and> getApiKey_hardcoded ''hardcoded-key'' (stored_key_env ''stored-key'' ''env-key'') = Some ''hardcoded-key''"
  using getApiKey_precedence [of "stored_key_env ''stored-key'' ''env-key''" "''hardcoded-key''"]
        getApiKey_precedence [of "stored_key_env [] ''env-key''" "''hardcoded-key''"]
  by (simp add: stored_key_env_def)

theorem getApiKey_stored_value_counterexample:
  "getApiKey_hardcoded ''hardcoded-key'' (stored_key_env ''stored-key'' ''env-key'') \<noteq> Some ''stored-key''
   \<and> getItem (stored_key_env [] ''env-key'') ''gemini_api_key'' = Some []
   \<and> getApiKey (stored_key_env [] ''env-key'') \<noteq> Some []"
  by (simp add: getApiKey_def getApiKey_hardcoded_def stored_key_env_def)

section \<open>Properties of the virtual tour\<close>

lemma tour_wf_iff:
  "tour_wf t \<longleftrightarrow>
     ([] \<notin> set (history t) \<and>
      (if history t = [] then historyIndex t = - 1
       else 0 \<le> historyIndex t \<and> historyIndex t < int (length (history t))))"
proof (cases "history t = []")
  case True
  then show ?thesis by (auto simp: tour_wf_def tour_inv_def)
next
  case False
  show ?thesis
  proof
    assume "tour_wf t"
    then show "[] \<notin> set (history t) \<and>
      (if history t = [] then historyIndex t = - 1
       else 0 \<le> historyIndex t \<and> historyIndex t < int (length (history t)))"
      using False by (auto simp: tour_wf_def tour_inv_def)
  next
    assume a: "[] \<notin> set (history t) \<and>
      (if history t = [] then historyIndex t = - 1
       else 0 \<le> historyIndex t \<and> historyIndex t < int (length (history t)))"
    then have r: "0 \<le> historyIndex t" "historyIndex t < int (length (history t))"
      using False by simp_all
    then have "nat (historyIndex t) < length (history t)" by simp
    then have "history t ! nat (historyIndex t) \<in> set (history t)" by (rule nth_mem)
    with a have "history t ! nat (historyIndex t) \<noteq> []" by metis
    then show "tour_wf t"
      using a r False by (simp add: tour_wf_def tour_inv_def displayed_def currentImage_def)
  qed
qed

lemma js_slice0_take: "0 \<le> e \<Longrightarrow> js_slice0 xs e = take (nat e) xs"
  by (auto simp: js_slice0_def Let_def min_def)

lemma tour_wf_init: "tour_wf tour_init"
  by (simp add: tour_wf_iff tour_init_def)

lemma tour_wf_upload: "tour_wf (handleImageUpload img t)"
  by (simp add: tour_wf_iff handleImageUpload_def Let_def)

lemma tour_wf_undo: "tour_wf t \<Longrightarrow> tour_wf (handleUndo t)"
  by (auto simp: tour_wf_iff handleUndo_def split: if_splits)

lemma tour_wf_redo: "tour_wf t \<Longrightarrow> tour_wf (handleRedo t)"
  by (auto simp: tour_wf_iff handleRedo_def split: if_splits)

lemma handleAction_cases:
  "fst (handleAction apiKey api action t) = t
   \<or> fst (handleAction apiKey api action t) = t\<lparr>isLoading := False\<rparr>
   \<or> (\<exists>im. im \<noteq> [] \<and> currentImage t \<noteq> None \<and>
        fst (handleAction apiKey api action t) =
          t\<lparr>history := js_slice0 (history t) (historyIndex t + 1) @ [im],
            historyIndex := int (length (js_slice0 (history t) (historyIndex t + 1) @ [im])) - 1,
            isLoading := False\<rparr>)"
  by (auto simp: handleAction_def Let_def split: option.splits sum.splits list.splits)

lemma tour_wf_action: 
  assumes "tour_wf t" shows "tour_wf (fst (handleAction apiKey api action t))"
proof -
  consider (a) "fst (handleAction apiKey api action t) = t"
    | (b) "fst (handleAction apiKey api action t) = t\<lparr>isLoading := False\<rparr>"
    | (c) im where "im \<noteq> []" "currentImage t \<noteq> None"
        "fst (handleAction apiKey api action t) =
          t\<lparr>history := js_slice0 (history t) (historyIndex t + 1) @ [im],
            historyIndex := int (length (js_slice0 (history t) (historyIndex t + 1) @ [im])) - 1,
            isLoading := False\<rparr>"
    using handleAction_cases [of apiKey api action t] by blast
  then show ?thesis
  proof cases
    case a
    then show ?thesis using assms by simp
  next
    case b
    then show ?thesis using assms by (simp add: tour_wf_iff)
  next
    case c
    from c(2) have r: "0 \<le> historyIndex t" "historyIndex t < int (length (history t))"
      by (auto simp: currentImage_def split: if_splits)
    have sl: "js_slice0 (history t) (historyIndex t + 1) = take (nat (historyIndex t + 1)) (history t)"
      using r by (simp add: js_slice0_take)
    have "[] \<notin> set (take (nat (historyIndex t + 1)) (history t))"
      using assms by (auto simp: tour_wf_iff dest: in_set_takeD)
    then show ?thesis
      unfolding c(3) sl using c(1) by (simp add: tour_wf_iff)
  qed
qed

lemma tour_wf_step: "tour_wf t \<Longrightarrow> tour_wf (tour_step t e)"
  by (cases e) (simp_all add: tour_wf_upload tour_wf_undo tour_wf_redo tour_wf_action, simp add: tour_wf_iff)

lemma tour_wf_foldl: "tour_wf t \<Longrightarrow> tour_wf (foldl tour_step t es)"
  by (induction es arbitrary: t) (simp_all add: tour_wf_step)

lemma example_data_url:
  "dataUrlToSourceImage ''data:image/png;base64,AAAA'' = Some \<lparr>base64 = ''AAAA'', mimeType = ''image/png''\<rparr>"
  by (simp add: dataUrlToSourceImage_def is_lower_ascii_def Let_def)

lemma example_generation:
  "snd (generateImages (Some ''k'') (always_image_api ''NNNN'')
          \<lparr>base64 = ''AAAA'', mimeType = ''image/png''\<rparr> ''zoom in slightly'' Interior 1 None True False
          ''1:1'' False)
   = Inr [''data:image/png;base64,NNNN'']"
  by (simp add: generateImages_def getGenAI_def Let_def image_response_def extractBase64Image_def
        always_image_api_def)

text \<open>
  C3. Undo at position 0 leaves the state unchanged. A navigation action that yields an
  image keeps the entries up to the current position \<open>P\<close>, discards the entries after
  it, appends the new image, and moves the position to the appended entry, which is
  then the current image.
\<close>

theorem tour_undo_noop_and_action_truncates:
  "(historyIndex t = 0 \<longrightarrow> handleUndo t = t)
   \<and> (currentImage t = Some cur \<and> cur \<noteq> [] \<and> dataUrlToSourceImage cur = Some img
      \<and> action_prompt (movementDegree t) action = Some prompt
      \<and> snd (generateImages apiKey api img prompt Interior 1 None True False ''1:1'' False) = Inr (im # others)
      \<and> im \<noteq> []
      \<longrightarrow> history (fst (handleAction apiKey api action t))
            = take (nat (historyIndex t) + 1) (history t) @ [im]
        \<and> historyIndex (fst (handleAction apiKey api action t)) = historyIndex t + 1
        \<and> historyIndex (fst (handleAction apiKey api action t))
            = int (length (history (fst (handleAction apiKey api action t)))) - 1
        \<and> currentImage (fst (handleAction apiKey api action t)) = Some im)"
proof (intro conjI impI)
  assume "historyIndex t = 0"
  then show "handleUndo t = t" by (simp add: handleUndo_def)
next
  assume h: "currentImage t = Some cur \<and> cur \<noteq> [] \<and> dataUrlToSourceImage cur = Some img
      \<and> action_prompt (movementDegree t) action = Some prompt
      \<and> snd (generateImages apiKey api img prompt Interior 1 None True False ''1:1'' False) = Inr (im # others)
      \<and> im \<noteq> []"
  then have r: "0 \<le> historyIndex t" "historyIndex t < int (length (history t))"
    by (auto simp: currentImage_def split: if_splits)
  have sl: "js_slice0 (history t) (historyIndex t + 1) = take (nat (historyIndex t) + 1) (history t)"
    using r by (simp add: js_slice0_take nat_add_distrib)
  have eq: "fst (handleAction apiKey api action t) =
          t\<lparr>history := take (nat (historyIndex t) + 1) (history t) @ [im],
            historyIndex := int (length (take (nat (historyIndex t) + 1) (history t) @ [im])) - 1,
            isLoading := False\<rparr>"
    using h by (simp add: handleAction_def Let_def sl)
  have len: "length (take (nat (historyIndex t) + 1) (history t)) = nat (historyIndex t) + 1"
    using r by simp
  show "history (fst (handleAction apiKey api action t))
            = take (nat (historyIndex t) + 1) (history t) @ [im]"
    by (simp add: eq)
  show i: "historyIndex (fst (handleAction apiKey api action t)) = historyIndex t + 1"
    using r by (simp add: eq)
  show "historyIndex (fst (handleAction apiKey api action t))
            = int (length (history (fst (handleAction apiKey api action t)))) - 1"
    by (simp add: eq)
  define H where "H = take (nat (historyIndex t) + 1) (history t)"
  have lenH: "length H = nat (historyIndex t) + 1"
    using len by (simp add: H_def)
  have hist: "history (fst (handleAction apiKey api action t)) = H @ [im]"
    by (simp add: eq H_def)
  have idx: "historyIndex (fst (handleAction apiKey api action t)) = int (length H)"
    by (simp add: eq H_def)
  have "currentImage (fst (handleAction apiKey api action t)) = Some ((H @ [im]) ! length H)"
    unfolding currentImage_def hist idx by simp
  then show "currentImage (fst (handleAction apiKey api action t)) = Some im"
    by simp
qed

theorem tour_undo_noop_and_action_truncates_witness:
  "historyIndex tour_example = 0
   \<and> handleUndo tour_example = tour_example
   \<and> history (fst (handleAction (Some ''k'') (always_image_api ''NNNN'') ''zoom-in'' tour_example))
       = [''data:image/png;base64,AAAA'', ''data:image/png;base64,NNNN'']
   \<and> historyIndex (fst (handleAction (Some ''k'') (always_image_api ''NNNN'') ''zoom-in'' tour_example)) = 1"
proof -
  have c: "currentImage tour_example = Some ''data:image/png;base64,AAAA''"
    by (simp add: currentImage_def tour_example_def)
  have p: "action_prompt (movementDegree tour_example) ''zoom-in'' = Some ''zoom in slightly''"
    by (simp add: action_prompt_def)
  have i: "historyIndex tour_example = 0" and h: "history tour_example =
      [''data:image/png;base64,AAAA'', ''data:image/png;base64,BBBB'', ''data:image/png;base64,CCCC'']"
    by (simp_all add: tour_example_def)
  show ?thesis
    using tour_undo_noop_and_action_truncates
            [of tour_example "''data:image/png;base64,AAAA''"
                "\<lparr>base64 = ''AAAA'', mimeType = ''image/png''\<rparr>" "''zoom-in''" "''zoom in slightly''"
                "Some ''k''" "always_image_api ''NNNN''" "''data:image/png;base64,NNNN''" "[]"]
          c p i h example_data_url example_generation
    by simp
qed

text \<open>
  C9. After every sequence of uploads, navigation actions, undos and redos, the position
  is between \<open>-1\<close> and the last index of the history, it is \<open>-1\<close> exactly when the
  history is empty, and when the history is not empty the viewer shows the entry at
  the position.
\<close>

theorem tour_invariant_maintained: "tour_inv (tour_run events)"
  using tour_wf_foldl [OF tour_wf_init, of events] by (simp add: tour_run_def tour_wf_def)

theorem tour_invariant_maintained_witness:
  "tour_inv (tour_run tour_example_events)
   \<and> history (tour_run tour_example_events)
      = [''data:image/png;base64,AAAA'', ''data:image/png;base64,NNNN'']
   \<and> historyIndex (tour_run tour_example_events) = 0
   \<and> displayed (tour_run tour_example_events) = Some ''data:image/png;base64,AAAA''"
proof -
  have e: "tour_run tour_example_events
     = \<lparr>tour_sourceImage = Some \<lparr>base64 = ''AAAA'', mimeType = ''image/png''\<rparr>,
        history = [''data:image/png;base64,AAAA'', ''data:image/png;base64,NNNN''],
        historyIndex = 0, isLoading = False, movementDegree = Deg30\<rparr>"
    by (simp add: tour_run_def tour_example_events_def tour_init_def handleImageUpload_def
          handleAction_def currentImage_def example_data_url example_generation [unfolded One_nat_def]
          action_prompt_def js_slice0_def handleUndo_def handleRedo_def Let_def)
  show ?thesis
    using tour_invariant_maintained [of tour_example_events]
    by (simp add: e displayed_def currentImage_def)
qed

section \<open>Properties of the mask compositor\<close>

lemma composite_in_white_on_opaque:
  "alpha b = 1 \<Longrightarrow> composite Source_in white b = white"
  by (simp add: composite_def white_def Let_def)

lemma composite_over_opaque_alpha:
  "alpha b = 1 \<Longrightarrow> alpha (composite Source_over s b) = 1"
  by (simp add: composite_def Let_def)

lemma composite_over_black_on_any: "alpha (composite Source_over black b) = 1"
  by (simp add: composite_def Let_def black_def)

lemma generateMaskImage_uniformly_white:
  assumes "generateMaskImage (Some d) True = Some m"
  shows "width m = width d \<and> height m = height d \<and> (\<forall>x y. x < width d \<and> y < height d \<longrightarrow> pixel m x y = white)"
proof -
  have m: "m = bitmap (fillRect 0 0 (width d) (height d)
            ((drawImage d 0 0
               ((fillRect 0 0 (width d) (height d)
                  ((getContext (createCanvas (width d) (height d)))\<lparr>fillStyle := black\<rparr>))
                \<lparr>globalCompositeOperation := Source_over\<rparr>))
             \<lparr>globalCompositeOperation := Source_in, fillStyle := white\<rparr>))"
    using assms by (simp add: generateMaskImage_def Let_def createCanvas_def)
  show ?thesis
    unfolding m
    by (simp add: fillRect_def drawImage_def getContext_def createCanvas_def
          composite_in_white_on_opaque composite_over_opaque_alpha composite_over_black_on_any)
qed

text \<open>
  C1. The mask has the size of the stroke layer, but it is white everywhere: the black
  fill makes every pixel opaque before the \<open>source-in\<close> fill with white, so the white
  fill is kept at every pixel. For an empty stroke layer of 2 by 2 pixels the mask is
  white at (0,0) and (1,1), not black; for a layer with one painted pixel the pixel
  (1,1), which no stroke touched, is white as well.
\<close>

theorem generateMaskImage_unpainted_pixels_white:
  "mask_size (generateMaskImage (Some (empty_layer 2 2)) True) = Some (2, 2)
   \<and> mask_pixel (generateMaskImage (Some (empty_layer 2 2)) True) 0 0 = Some white
   \<and> mask_pixel (generateMaskImage (Some (empty_layer 2 2)) True) 1 1 = Some white
   \<and> pixel one_stroke_layer 1 1 = transparent
   \<and> mask_pixel (generateMaskImage (Some one_stroke_layer) True) 1 1 = Some white
   \<and> white \<noteq> black"
  by (simp add: generateMaskImage_def Let_def createCanvas_def empty_layer_def one_stroke_layer_def
        fillRect_def drawImage_def getContext_def composite_def white_def black_def transparent_def
        stroke_pink_def mask_size_def mask_pixel_def)

section \<open>Properties of the image editor\<close>

lemma handleGenerate_resolved:
  assumes "prompt \<noteq> []" and "snd (editImage apiKey api im maskImage prompt None 4) = Inr result"
  shows "handleGenerate apiKey api (Some im) prompt (Some maskImage)
         = [SetIsLoading True, SetResultImage None, SetResultImage (Some result),
            OnEditComplete im maskImage prompt result, SetIsLoading False]"
  using assms by (simp add: handleGenerate_def js_truthy_array_def)

lemma tour_reports_empty:
  assumes "currentImage t = Some cur" "cur \<noteq> []" "dataUrlToSourceImage cur = Some src"
      and "action_prompt (movementDegree t) action = Some prompt"
      and "snd (generateImages apiKey api src prompt Interior 1 None True False ''1:1'' False) = Inr []"
  shows "handleAction apiKey api action t =
           (t\<lparr>isLoading := False\<rparr>, [Console_error AI_cannot_create_new_image, Alert Alert_navigation_failed])"
  using assms by (simp add: handleAction_def)

text \<open>
  C7. In the image editor an edit that completes without error but extracts no image
  (all four responses are text only, so \<open>editImage\<close> returns the empty array) is not
  reported: the empty array is truthy, so the handler stores it as the result and
  calls \<open>onEditComplete\<close> with it; no alert is shown and the error "API did not
  return an image" is never thrown.
\<close>

theorem handleGenerate_empty_result_taken_as_success:
  "snd (editImage (Some ''k'') text_only_api example_source example_mask ''remove the car'' None 4) = Inr []
   \<and> handleGenerate (Some ''k'') text_only_api (Some example_source) ''remove the car'' (Some example_mask)
     = [SetIsLoading True, SetResultImage None, SetResultImage (Some []),
        OnEditComplete example_source example_mask ''remove the car'' [],
        SetIsLoading False]"
  by (simp add: handleGenerate_def editImage_def getGenAI_def text_only_api_def Let_def
        extractBase64Image_def text_response_def js_truthy_array_def numeral_eq_Suc upt_rec)

section \<open>Properties of the prompt assembler\<close>

text \<open>
  C8. When a material tier is selected (and the source image is present, which the
  effect requires), the assembled prompt is the house-type/style/floor clause, then
  the colour clause if a palette is selected, then the materials clause, then the
  design-keywords clause if present, then the gate-design clause if present, then the
  fixed closing clause, in this order and with nothing else.
\<close>

theorem facade_prompt_clauses_in_order:
  assumes "selectedMaterial = Some m" and "sourceImage1 = Some src"
  shows "facade_prompt_effect selectedMaterial sourceImage1 houseType style floors palette
         = Some (house_clause houseType style floors @ color_clause palette @ materials_clause m
                 @ design_clause m @ gate_clause m @ txt_keep_surroundings)"
  using assms
  by (simp add: facade_prompt_effect_def house_clause_def color_clause_def materials_clause_def
        design_clause_def gate_clause_def Let_def split: option.splits)

theorem facade_prompt_clauses_in_order_witness:
  "facade_prompt_effect (Some premium_example) (Some example_source)
      ''Townhouse'' ''Modern'' ''3'' (Some palette_example)
   = Some (txt_facade @ ''Townhouse Modern, 3'' @ txt_floors
           @ txt_color @ ''White and Grey. ''
           @ txt_materials @ ''stone, teak, low-e glass. ''
           @ txt_design @ ''organic facade. ''
           @ txt_gate @ ''arched wooden gate. ''
           @ txt_keep_surroundings)"
  using facade_prompt_clauses_in_order
          [of "Some premium_example" premium_example "Some example_source" example_source
              "''Townhouse''" "''Modern''" "''3''" "Some palette_example"]
  by (simp add: house_clause_def color_clause_def materials_clause_def design_clause_def gate_clause_def
        premium_example_def palette_example_def)

end
